theory Spec2Isabelle
  imports Complex_Main "HOL-Library.AList"
begin

section \<open>Python values and exceptions\<close>

text \<open>
  The services pass around the values that \<^verbatim>\<open>json.loads\<close> produces: \<^verbatim>\<open>None\<close>,
  booleans, numbers, strings, lists and dictionaries. A dictionary is an association
  list with distinct keys, in insertion order.
\<close>

datatype json =
    JNull
  | JBool bool
  | JInt int
  | JFloat real
  | JStr string
  | JArr "json list"
  | JObj "(string \<times> json) list"

text \<open>
  The exceptions the modelled code can meet. All of them are subclasses of
  \<^verbatim>\<open>Exception\<close>, so a clause \<^verbatim>\<open>except Exception\<close> catches every one.
  \<open>HTTPException\<close> carries status code and detail; \<open>Exception\<close> carries a message and
  stands for any failure of a collaborator (model call, HTTP request, PDF reader).
\<close>

datatype exn =
    AttributeError
  | TypeError
  | KeyError string
  | JSONDecodeError
  | HTTPException nat string
  | Exception string

definition bindE :: "exn + 'a \<Rightarrow> ('a \<Rightarrow> exn + 'b) \<Rightarrow> exn + 'b" where
  "bindE m f = (case m of Inl e \<Rightarrow> Inl e | Inr v \<Rightarrow> f v)"

text \<open>Truth value of a Python object, as \<^verbatim>\<open>not x\<close> and \<^verbatim>\<open>if x\<close> test it.\<close>

fun truthy :: "json \<Rightarrow> bool" where
  "truthy JNull = False"
| "truthy (JBool b) = b"
| "truthy (JInt i) = (i \<noteq> 0)"
| "truthy (JFloat r) = (r \<noteq> 0)"
| "truthy (JStr s) = (s \<noteq> [])"
| "truthy (JArr xs) = (xs \<noteq> [])"
| "truthy (JObj kvs) = (kvs \<noteq> [])"

text \<open>\<^verbatim>\<open>len(x)\<close>: defined on strings, lists and dictionaries, a \<^verbatim>\<open>TypeError\<close> elsewhere.\<close>

fun py_len :: "json \<Rightarrow> exn + nat" where
  "py_len (JStr s) = Inr (length s)"
| "py_len (JArr xs) = Inr (length xs)"
| "py_len (JObj kvs) = Inr (length kvs)"
| "py_len _ = Inl TypeError"

text \<open>\<^verbatim>\<open>x.get(key, default)\<close>: only a dictionary has the method.\<close>

fun py_get :: "json \<Rightarrow> string \<Rightarrow> json \<Rightarrow> exn + json" where
  "py_get (JObj kvs) k d = Inr (case map_of kvs k of None \<Rightarrow> d | Some v \<Rightarrow> v)"
| "py_get _ k d = Inl AttributeError"

text \<open>\<^verbatim>\<open>x[key]\<close> with a string key: a missing key raises \<^verbatim>\<open>KeyError\<close>.\<close>

fun py_getitem :: "json \<Rightarrow> string \<Rightarrow> exn + json" where
  "py_getitem (JObj kvs) k = (case map_of kvs k of None \<Rightarrow> Inl (KeyError k) | Some v \<Rightarrow> Inr v)"
| "py_getitem _ k = Inl TypeError"

text \<open>Iteration, as a \<^verbatim>\<open>for\<close> loop sees the object.\<close>

fun py_iter :: "json \<Rightarrow> exn + json list" where
  "py_iter (JArr xs) = Inr xs"
| "py_iter (JStr s) = Inr (map (\<lambda>c. JStr [c]) s)"
| "py_iter (JObj kvs) = Inr (map (\<lambda>kv. JStr (fst kv)) kvs)"
| "py_iter _ = Inl TypeError"

subsection \<open>String operations\<close>

text \<open>\<^verbatim>\<open>text.find(c)\<close> and \<^verbatim>\<open>text.rfind(c)\<close> for a one-character needle: the
  first, respectively last, index of \<open>c\<close>, or \<open>-1\<close>.\<close>

fun py_find :: "string \<Rightarrow> char \<Rightarrow> int" where
  "py_find [] c = - 1"
| "py_find (x # xs) c =
     (if x = c then 0 else (let r = py_find xs c in if r = - 1 then - 1 else r + 1))"

fun py_rfind :: "string \<Rightarrow> char \<Rightarrow> int" where
  "py_rfind [] c = - 1"
| "py_rfind (x # xs) c =
     (let r = py_rfind xs c in if r \<noteq> - 1 then r + 1 else if x = c then 0 else - 1)"

text \<open>\<^verbatim>\<open>text[i:j]\<close>: a negative bound counts from the end, and bounds are clipped.\<close>

definition slice_bound :: "nat \<Rightarrow> int \<Rightarrow> nat" where
  "slice_bound n k = (if k < 0 then nat (int n + k) else min n (nat k))"

definition py_slice :: "string \<Rightarrow> int \<Rightarrow> int \<Rightarrow> string" where
  "py_slice text i j =
     (let lo = slice_bound (length text) i; hi = slice_bound (length text) j
      in take (hi - lo) (drop lo text))"

text \<open>\<^verbatim>\<open>str(n)\<close> for an integer: decimal digits, with a sign when negative.\<close>

fun digits_of :: "nat \<Rightarrow> nat \<Rightarrow> string" where
  "digits_of 0 n = []"
| "digits_of (Suc fuel) n =
     (if n < 10 then [char_of (48 + n)]
      else digits_of fuel (n div 10) @ [char_of (48 + n mod 10)])"

definition str_of_nat :: "nat \<Rightarrow> string" where
  "str_of_nat n = digits_of (Suc n) n"

definition str_of_int :: "int \<Rightarrow> string" where
  "str_of_int i = (if i < 0 then CHR ''-'' # str_of_nat (nat (- i)) else str_of_nat (nat i))"

text \<open>\<^verbatim>\<open>sep.join(parts)\<close>.\<close>

fun join :: "string \<Rightarrow> string list \<Rightarrow> string" where
  "join sep [] = []"
| "join sep [x] = x"
| "join sep (x # y # ys) = x @ sep @ join sep (y # ys)"

section \<open>The response parser\<close>

text \<open>
  \<^verbatim>\<open>json.loads\<close> belongs to the Python library, so the strict parser is a parameter
  \<open>loads\<close>: it returns the parsed value or raises. \<^verbatim>\<open>_safe_parse_json\<close> with its two
  \<^verbatim>\<open>try\<close> blocks; Python's \<^verbatim>\<open>None\<close> is \<open>JNull\<close>.
\<close>

definition safe_parse_json :: "(string \<Rightarrow> exn + json) \<Rightarrow> string \<Rightarrow> exn + json" where
  "safe_parse_json loads text =
     (case loads text of
        Inr v \<Rightarrow> Inr v
      | Inl _ \<Rightarrow>
          (let start = py_find text (CHR ''{'');
               stop = py_rfind text (CHR ''}'')
           in if start \<noteq> - 1 \<and> stop \<noteq> - 1 \<and> stop > start then
                (let snippet = py_slice text start (stop + 1)
                 in case loads snippet of Inr v \<Rightarrow> Inr v | Inl _ \<Rightarrow> Inr JNull)
              else Inr JNull))"


subsection \<open>A strict parser for evaluation\<close>

text \<open>
  For evaluating the services on concrete model responses, \<open>json_loads\<close> implements the
  JSON grammar as \<^verbatim>\<open>json.loads\<close> reads it, on the fragment without escape
  sequences in strings, without fractions or exponents in numbers and without the
  literals \<^verbatim>\<open>NaN\<close> and \<^verbatim>\<open>Infinity\<close> (a text that uses them is rejected here). Leading and trailing whitespace is allowed, anything else
  after the value is an error, and a repeated key keeps its last value. The recursion
  runs on a counter that starts above the length of the text.
\<close>

definition is_ws :: "char \<Rightarrow> bool" where
  "is_ws c = (c = CHR '' '' \<or> c = CHR 0x09 \<or> c = CHR 0x0A \<or> c = CHR 0x0D)"

definition skip_ws :: "string \<Rightarrow> string" where
  "skip_ws s = dropWhile is_ws s"

definition is_digit :: "char \<Rightarrow> bool" where
  "is_digit c = (let n = (of_char c :: nat) in 48 \<le> n \<and> n \<le> 57)"

definition digit_val :: "char \<Rightarrow> int" where
  "digit_val c = int (of_char c) - 48"

fun scan_string :: "string \<Rightarrow> (string \<times> string) option" where
  "scan_string [] = None"
| "scan_string (c # r) =
     (if c = CHR 0x22 then Some ([], r)
      else if c = CHR 0x5C \<or> (of_char c :: nat) < 32 then None
      else (case scan_string r of None \<Rightarrow> None | Some (str, r') \<Rightarrow> Some (c # str, r')))"

definition scan_digits :: "string \<Rightarrow> (int \<times> string) option" where
  "scan_digits s =
     (let ds = takeWhile is_digit s; r = dropWhile is_digit s
      in if ds = [] \<or> (length ds > 1 \<and> hd ds = CHR ''0'') then None
         else if r \<noteq> [] \<and> (hd r = CHR ''.'' \<or> hd r = CHR ''e'' \<or> hd r = CHR ''E'') then None
         else Some (foldl (\<lambda>acc d. 10 * acc + digit_val d) 0 ds, r))"

definition scan_number :: "string \<Rightarrow> (json \<times> string) option" where
  "scan_number s =
     (case s of
        [] \<Rightarrow> None
      | c # r \<Rightarrow>
          if c = CHR ''-'' then map_option (\<lambda>(i, r'). (JInt (- i), r')) (scan_digits r)
          else map_option (\<lambda>(i, r'). (JInt i, r')) (scan_digits s))"

fun parse_value :: "nat \<Rightarrow> string \<Rightarrow> (json \<times> string) option"
and parse_elements :: "nat \<Rightarrow> json list \<Rightarrow> string \<Rightarrow> (json \<times> string) option"
and parse_members :: "nat \<Rightarrow> (string \<times> json) list \<Rightarrow> string \<Rightarrow> (json \<times> string) option"
where
  "parse_value 0 s = None"
| "parse_value (Suc n) s =
     (case skip_ws s of
        [] \<Rightarrow> None
      | c # r \<Rightarrow>
          if c = CHR ''{'' then
            (case skip_ws r of
               [] \<Rightarrow> None
             | d # r' \<Rightarrow> if d = CHR ''}'' then Some (JObj [], r') else parse_members n [] (d # r'))
          else if c = CHR ''['' then
            (case skip_ws r of
               [] \<Rightarrow> None
             | d # r' \<Rightarrow> if d = CHR '']'' then Some (JArr [], r') else parse_elements n [] (d # r'))
          else if c = CHR 0x22 then
            (case scan_string r of None \<Rightarrow> None | Some (str, r') \<Rightarrow> Some (JStr str, r'))
          else if take 4 (c # r) = ''null'' then Some (JNull, drop 4 (c # r))
          else if take 4 (c # r) = ''true'' then Some (JBool True, drop 4 (c # r))
          else if take 5 (c # r) = ''false'' then Some (JBool False, drop 5 (c # r))
          else scan_number (c # r))"
| "parse_elements 0 acc s = None"
| "parse_elements (Suc n) acc s =
     (case parse_value n s of
        None \<Rightarrow> None
      | Some (v, r) \<Rightarrow>
          (case skip_ws r of
             [] \<Rightarrow> None
           | d # r' \<Rightarrow>
               if d = CHR '','' then parse_elements n (acc @ [v]) r'
               else if d = CHR '']'' then Some (JArr (acc @ [v]), r')
               else None))"
| "parse_members 0 acc s = None"
| "parse_members (Suc n) acc s =
     (case skip_ws s of
        [] \<Rightarrow> None
      | q # r \<Rightarrow>
          if q \<noteq> CHR 0x22 then None
          else
            (case scan_string r of
               None \<Rightarrow> None
             | Some (k, r1) \<Rightarrow>
                 (case skip_ws r1 of
                    [] \<Rightarrow> None
                  | c # r2 \<Rightarrow>
                      if c \<noteq> CHR '':'' then None
                      else
                        (case parse_value n r2 of
                           None \<Rightarrow> None
                         | Some (v, r3) \<Rightarrow>
                             (case skip_ws r3 of
                                [] \<Rightarrow> None
                              | d # r4 \<Rightarrow>
                                  if d = CHR '','' then parse_members n (AList.update k v acc) r4
                                  else if d = CHR ''}'' then Some (JObj (AList.update k v acc), r4)
                                  else None)))))"

definition json_loads :: "string \<Rightarrow> exn + json" where
  "json_loads s =
     (case parse_value (Suc (length s)) s of
        None \<Rightarrow> Inl JSONDecodeError
      | Some (v, r) \<Rightarrow> if skip_ws r = [] then Inr v else Inl JSONDecodeError)"

section \<open>The collaborators\<close>

text \<open>
  What the services call outside the repository: the strict JSON parser, the model
  call (\<^verbatim>\<open>ChatGoogleGenerativeAI(...).ainvoke(prompt)\<close>, read through to the
  response's text; it returns the text or raises), and Python's \<^verbatim>\<open>str\<close> on a value
  that is not a string and on an exception.
\<close>

record runtime =
  loads :: "string \<Rightarrow> exn + json"
  ainvoke :: "string \<Rightarrow> exn + string"
  py_str :: "json \<Rightarrow> string"
  exn_str :: "exn \<Rightarrow> string"

text \<open>An f-string field \<^verbatim>\<open>{q}\<close>: a string is inserted as it is.\<close>

definition format_value :: "runtime \<Rightarrow> json \<Rightarrow> string" where
  "format_value rt v = (case v of JStr s \<Rightarrow> s | _ \<Rightarrow> py_str rt v)"

section \<open>The model service\<close>

definition build_generation_prompt :: "string \<Rightarrow> int \<Rightarrow> string" where
  \<open>build_generation_prompt source_text max_cases =
     (let instructions =
            ''You are a senior QA engineer for healthcare software. '' @
            ''Generate a diverse suite of test cases (positive, negative, edge cases) with realistic test data. '' @
            ''Focus on HIPAA, PHI handling, consent, audit logging, roles, clinical safety, interoperability (HL7/FHIR), and input validation. '' @
            ''Return ONLY a valid JSON object with a top-level key 'testCases' which is an array of objects. '' @
            ''Each object must have fields: testCaseId, title, description, testSteps (array of strings), '' @
            ''expectedResults, priority (P1/P2/P3). '' @
            ''Use at most '' @ str_of_int max_cases @ '' test cases. Use readable IDs like TC-001, TC-002.'';
          example =
            ''{\<newline>'' @
            ''  "testCases": [\<newline>'' @
            ''    {\<newline>'' @
            ''      "testCaseId": "TC-001",\<newline>'' @
            ''      "title": "Example",\<newline>'' @
            ''      "description": "...",\<newline>'' @
            ''      "testSteps": ["step 1", "step 2"],\<newline>'' @
            ''      "expectedResults": "...",\<newline>'' @
            ''      "priority": "P2"\<newline>'' @
            ''    }\<newline>'' @
            ''  ]\<newline>'' @
            ''}''
      in instructions @ ''\<newline>\<newline>'' @
         ''Context:\<newline>'' @ take 12000 source_text @ ''\<newline>\<newline>'' @
         ''JSON Schema and Example:\<newline>'' @ example @ ''\<newline>\<newline>'' @
         ''Return only JSON with no extra text.'')\<close>

definition build_refinement_prompt :: "string \<Rightarrow> string \<Rightarrow> int \<Rightarrow> string" where
  "build_refinement_prompt source_text qa_block max_cases =
     (let instructions =
            ''Refine and regenerate the healthcare QA test cases based on additional clarifications below. '' @
            ''Return ONLY JSON with top-level key 'testCases'. Maintain the same schema. '' @
            ''Ensure coverage of both normal and failure paths, boundary conditions, and compliance aspects. '' @
            ''Use at most '' @ str_of_int max_cases @ '' test cases.''
      in instructions @ ''\<newline>\<newline>'' @
         ''Context:\<newline>'' @ take 12000 source_text @ ''\<newline>\<newline>'' @
         ''Clarifications:\<newline>'' @ qa_block @ ''\<newline>\<newline>'' @
         ''Return only JSON.'')"

definition propose_followups :: "string \<Rightarrow> string list" where
  "propose_followups source_text =
     [''What user roles and permissions need to be covered (e.g., clinician, admin, patient)?'',
      ''What environments or integrations are in scope (e.g., FHIR server, EHR vendor, external IDP)?'',
      ''Any regulatory constraints or organizational policies we must validate beyond HIPAA (e.g., SOC2, ISO 27001)?'']"

text \<open>The result that replaces a falsy parse: \<^verbatim>\<open>{'testCases': []}\<close>.\<close>

definition or_empty_result :: "json \<Rightarrow> json" where
  "or_empty_result parsed = (if \<not> truthy parsed then JObj [(''testCases'', JArr [])] else parsed)"

text \<open>
  The condition of the \<^verbatim>\<open>if\<close> in \<^verbatim>\<open>generate_test_cases\<close>:
  \<^verbatim>\<open>enable_followups and (not parsed.get('testCases') or len(parsed.get('testCases', [])) < 3)\<close>,
  evaluated left to right with Python's short circuits.
\<close>

definition followups_wanted :: "bool \<Rightarrow> json \<Rightarrow> exn + bool" where
  "followups_wanted enable_followups parsed =
     (if \<not> enable_followups then Inr False
      else bindE (py_get parsed ''testCases'' JNull) (\<lambda>tc.
           if \<not> truthy tc then Inr True
           else bindE (py_get parsed ''testCases'' (JArr [])) (\<lambda>tc'.
                bindE (py_len tc') (\<lambda>n. Inr (n < 3)))))"

definition generate_test_cases :: "runtime \<Rightarrow> string \<Rightarrow> int \<Rightarrow> bool \<Rightarrow> exn + json" where
  "generate_test_cases rt source_text max_cases enable_followups =
     bindE (ainvoke rt (build_generation_prompt source_text max_cases)) (\<lambda>content.
     bindE (safe_parse_json (loads rt) content) (\<lambda>parsed0.
     let parsed = or_empty_result parsed0 in
     bindE (followups_wanted enable_followups parsed) (\<lambda>wanted.
       if wanted then
         Inr (JObj [(''followUpQuestions'', JArr (map JStr (propose_followups source_text)))])
       else Inr parsed)))"

text \<open>
  The answers arrive as \<^verbatim>\<open>Dict[str, str]\<close>, so the second lookup
  \<^verbatim>\<open>answers_map.get(idx)\<close>, with the integer as key, finds nothing and gives \<^verbatim>\<open>None\<close>.
\<close>

definition answer_for :: "(string \<rightharpoonup> string) \<Rightarrow> nat \<Rightarrow> string" where
  "answer_for answers_map idx =
     (let a1 = (case answers_map (str_of_nat idx) of None \<Rightarrow> [] | Some a \<Rightarrow> a)
      in if a1 \<noteq> [] then a1 else [])"

text \<open>The loop over \<^verbatim>\<open>enumerate(questions)\<close>, appending one entry per question.\<close>

fun qa_loop :: "runtime \<Rightarrow> (string \<rightharpoonup> string) \<Rightarrow> nat \<Rightarrow> json list \<Rightarrow> string list \<Rightarrow> string list" where
  "qa_loop rt answers_map idx [] qa_pairs = qa_pairs"
| "qa_loop rt answers_map idx (q # qs) qa_pairs =
     qa_loop rt answers_map (Suc idx) qs
       (qa_pairs @ [''Q: '' @ format_value rt q @ '' A: '' @ answer_for answers_map idx])"

definition qa_block_of :: "runtime \<Rightarrow> json list \<Rightarrow> (string \<rightharpoonup> string) \<Rightarrow> string" where
  "qa_block_of rt qs answers_map = join ''\<newline>'' (qa_loop rt answers_map 0 qs [])"

definition generate_refined_test_cases ::
  "runtime \<Rightarrow> string \<Rightarrow> json \<Rightarrow> (string \<rightharpoonup> string) \<Rightarrow> int \<Rightarrow> exn + json" where
  "generate_refined_test_cases rt source_text questions answers_map max_cases =
     bindE (py_iter questions) (\<lambda>qs.
     let qa_block = qa_block_of rt qs answers_map in
     bindE (ainvoke rt (build_refinement_prompt source_text qa_block max_cases)) (\<lambda>content.
     bindE (safe_parse_json (loads rt) content) (\<lambda>parsed. Inr (or_empty_result parsed))))"


section \<open>The Jira service\<close>

text \<open>\<^verbatim>\<open>s.rstrip(c)\<close>, \<^verbatim>\<open>s.endswith(suffix)\<close>, and \<^verbatim>\<open>+\<close> with a string on one side.\<close>

definition py_rstrip :: "string \<Rightarrow> char \<Rightarrow> string" where
  "py_rstrip s c = rev (dropWhile (\<lambda>x. x = c) (rev s))"

definition py_endswith :: "string \<Rightarrow> string \<Rightarrow> bool" where
  "py_endswith s suffix =
     (length suffix \<le> length s \<and> drop (length s - length suffix) s = suffix)"

fun str_plus :: "string \<Rightarrow> json \<Rightarrow> exn + string" where
  "str_plus a (JStr b) = Inr (a @ b)"
| "str_plus a _ = Inl TypeError"

fun plus_str :: "json \<Rightarrow> string \<Rightarrow> exn + string" where
  "plus_str (JStr a) b = Inr (a @ b)"
| "plus_str _ b = Inl TypeError"

text \<open>
  The walk over an Atlassian document: for every block, for every inner node of the
  block, the node's text is appended when it is truthy. The service writes the two
  nested loops out twice, for the description and for the acceptance criteria.
\<close>

fun adf_inner :: "json list \<Rightarrow> string \<Rightarrow> exn + string" where
  "adf_inner [] acc = Inr acc"
| "adf_inner (inner # rest) acc =
     bindE (py_get inner ''text'' JNull) (\<lambda>t.
       if truthy t then
         bindE (plus_str t []) (\<lambda>piece. adf_inner rest (acc @ piece))
       else adf_inner rest acc)"

fun adf_blocks :: "json list \<Rightarrow> string \<Rightarrow> exn + string" where
  "adf_blocks [] acc = Inr acc"
| "adf_blocks (block # rest) acc =
     bindE (py_get block ''content'' (JArr [])) (\<lambda>c.
     bindE (py_iter c) (\<lambda>inners.
     bindE (adf_inner inners acc) (\<lambda>acc'. adf_blocks rest acc')))"

definition description_of :: "json \<Rightarrow> exn + string" where
  "description_of description_obj =
     (case description_obj of
        JObj kvs \<Rightarrow>
          bindE (py_get description_obj ''content'' JNull) (\<lambda>c.
            if truthy c then
              bindE (py_get description_obj ''content'' (JArr [])) (\<lambda>c'.
              bindE (py_iter c') (\<lambda>blocks. adf_blocks blocks []))
            else Inr [])
      | JStr s \<Rightarrow> Inr s
      | _ \<Rightarrow> Inr [])"

definition acceptance_keys :: "string list" where
  "acceptance_keys = [''customfield_10034'', ''Acceptance Criteria'', ''acceptanceCriteria'']"

text \<open>
  The loop over the field names: a string value or a dictionary value ends the loop
  (\<^verbatim>\<open>break\<close>); every other value, \<^verbatim>\<open>None\<close> for a missing field included, moves on
  to the next name. \<open>acceptance\<close> is empty when the loop starts and when it runs out.
  \<open>flds\<close> is the dictionary \<^verbatim>\<open>fields\<close>.
\<close>

fun acceptance_of :: "json \<Rightarrow> string list \<Rightarrow> exn + string" where
  "acceptance_of flds [] = Inr []"
| "acceptance_of flds (key # keys) =
     bindE (py_get flds key JNull) (\<lambda>val.
       case val of
         JStr s \<Rightarrow> Inr s
       | JObj kvs \<Rightarrow>
           bindE (py_get val ''content'' (JArr [])) (\<lambda>c.
           bindE (py_iter c) (\<lambda>blocks. adf_blocks blocks []))
       | _ \<Rightarrow> acceptance_of flds keys)"

text \<open>
  The HTTP request is a collaborator: \<open>requests_get url headers\<close> returns the response
  or raises. Of the response the service reads \<^verbatim>\<open>status_code\<close>, \<^verbatim>\<open>text\<close> (here
  \<open>body\<close>) and \<^verbatim>\<open>json()\<close> (here \<open>json_body\<close>, which raises on a body that is not JSON).
\<close>

record response =
  status_code :: int
  body :: string
  json_body :: "exn + json"

definition fetch_story ::
  "(string \<Rightarrow> (string \<times> string) list \<Rightarrow> exn + response) \<Rightarrow> string \<Rightarrow> string \<Rightarrow> string \<Rightarrow> exn + string" where
  "fetch_story requests_get base_url story_key token =
     (if token = [] then Inl (Exception ''Jira token not configured in Admin Settings'')
      else
        let url = py_rstrip base_url (CHR ''/'') @ ''/rest/api/3/issue/'' @ story_key;
            headers = [(''Authorization'', ''Basic '' @ token), (''Accept'', ''application/json'')]
        in bindE (requests_get url headers) (\<lambda>resp.
             if status_code resp \<noteq> 200 then
               Inl (Exception (''Jira API error '' @ str_of_int (status_code resp) @ '' '' @ body resp))
             else
               bindE (json_body resp) (\<lambda>data.
               bindE (py_get data ''fields'' (JObj [])) (\<lambda>fields.
               bindE (py_get fields ''summary'' (JStr [])) (\<lambda>summary.
               bindE (py_get fields ''description'' JNull) (\<lambda>description_obj.
               bindE (description_of description_obj) (\<lambda>description_text.
               bindE (acceptance_of fields acceptance_keys) (\<lambda>acceptance.
               bindE (str_plus ''Summary:'' summary) (\<lambda>s1.
                 Inr (s1 @ ''Description:'' @ description_text @
                      ''Acceptance Criteria:'' @ acceptance))))))))))"

section \<open>The request handlers\<close>

text \<open>
  The module's global state: the stored follow-up contexts (a dictionary, iterated in
  insertion order), the log (level and message of each entry; the timestamp is left
  out) and the admin settings. The session table is behind \<^verbatim>\<open>get_current_user\<close>;
  a handler receives the user name it yields.
\<close>

record follow_up_context =
  original_text :: string
  questions :: json
  user :: string

record settings =
  geminiApiKey :: string
  jiraToken :: string
  maxTestCases :: int
  enableFollowUpQuestions :: bool

record app_state =
  follow_up_contexts :: "(string \<times> follow_up_context) list"
  system_logs :: "(string \<times> string) list"
  admin_settings :: settings

definition log_activity :: "app_state \<Rightarrow> string \<Rightarrow> string \<Rightarrow> app_state" where
  "log_activity st level message = st\<lparr>system_logs := system_logs st @ [(level, message)]\<rparr>"

text \<open>
  The part that \<^verbatim>\<open>upload_file\<close> and \<^verbatim>\<open>fetch_jira_story\<close> share word for word, from
  \<^verbatim>\<open>if result.get("followUpQuestions")\<close> to the two \<^verbatim>\<open>return\<close>s; only the text that
  is stored and the last words of the log message differ. \<open>context_id\<close> is the value of
  \<^verbatim>\<open>str(uuid.uuid4())\<close>.
\<close>

definition deliver_result ::
  "app_state \<Rightarrow> json \<Rightarrow> string \<Rightarrow> string \<Rightarrow> string \<Rightarrow> string \<Rightarrow> (exn + json) \<times> app_state" where
  "deliver_result st result source_text context_id username origin =
     (case py_get result ''followUpQuestions'' JNull of
        Inl e \<Rightarrow> (Inl e, st)
      | Inr fq \<Rightarrow>
          if truthy fq then
            (Inr (JObj [(''followUpQuestions'', fq), (''contextId'', JStr context_id)]),
             st\<lparr>follow_up_contexts :=
                  AList.update context_id
                    \<lparr>original_text = source_text, questions = fq, user = username\<rparr>
                    (follow_up_contexts st)\<rparr>)
          else
            (case py_getitem result ''testCases'' of
               Inl e \<Rightarrow> (Inl e, st)
             | Inr tcs \<Rightarrow>
                 (case py_len tcs of
                    Inl e \<Rightarrow> (Inl e, st)
                  | Inr n \<Rightarrow>
                      (Inr (JObj [(''testCases'', tcs)]),
                       log_activity st ''INFO''
                         (''Generated '' @ str_of_nat n @ '' test cases from '' @ origin)))))"

text \<open>
  \<^verbatim>\<open>except Exception as e\<close> around a handler's body: the error is logged and an
  \<open>HTTPException\<close> with status 500 is raised in its place.
\<close>

definition on_exception ::
  "runtime \<Rightarrow> string \<Rightarrow> string \<Rightarrow> (exn + json) \<times> app_state \<Rightarrow> (exn + json) \<times> app_state" where
  "on_exception rt log_prefix detail_prefix outcome =
     (case outcome of
        (Inl e, st) \<Rightarrow>
          (Inl (HTTPException 500 (detail_prefix @ exn_str rt e)),
           log_activity st ''ERROR'' (log_prefix @ exn_str rt e))
      | (Inr v, st) \<Rightarrow> (Inr v, st))"

text \<open>
  \<open>extracted\<close> is the outcome of saving the upload and of
  \<^verbatim>\<open>pdf_service.extract_text\<close>: the text, or the exception either of them raised.
\<close>

definition upload_file ::
  "runtime \<Rightarrow> app_state \<Rightarrow> string \<Rightarrow> exn + string \<Rightarrow> string \<Rightarrow> string \<Rightarrow> (exn + json) \<times> app_state" where
  "upload_file rt st filename extracted context_id username =
     on_exception rt ''File upload error: '' ''Failed to process file: ''
       (if \<not> py_endswith filename ''.pdf'' then
          (Inl (HTTPException 400 ''Only PDF files are supported''), st)
        else
          (case extracted of
             Inl e \<Rightarrow> (Inl e, st)
           | Inr extracted_text \<Rightarrow>
               (let st1 = log_activity st ''INFO'' (''PDF text extracted for file: '' @ filename)
                in case generate_test_cases rt extracted_text
                          (maxTestCases (admin_settings st1))
                          (enableFollowUpQuestions (admin_settings st1)) of
                     Inl e \<Rightarrow> (Inl e, st1)
                   | Inr result \<Rightarrow>
                       deliver_result st1 result extracted_text context_id username ''PDF'')))"

definition fetch_jira_story ::
  "runtime \<Rightarrow> (string \<Rightarrow> (string \<times> string) list \<Rightarrow> exn + response) \<Rightarrow> app_state \<Rightarrow>
   string \<Rightarrow> string \<Rightarrow> string \<Rightarrow> string \<Rightarrow> (exn + json) \<times> app_state" where
  "fetch_jira_story rt requests_get st jiraBaseUrl storyNumber context_id username =
     on_exception rt ''Jira fetch error: '' ''Failed to fetch Jira story: ''
       (case fetch_story requests_get jiraBaseUrl storyNumber (jiraToken (admin_settings st)) of
          Inl e \<Rightarrow> (Inl e, st)
        | Inr story_data \<Rightarrow>
            (let st1 = log_activity st ''INFO''
                         (''Jira story '' @ storyNumber @ '' fetched successfully'')
             in case generate_test_cases rt story_data
                       (maxTestCases (admin_settings st1))
                       (enableFollowUpQuestions (admin_settings st1)) of
                  Inl e \<Rightarrow> (Inl e, st1)
                | Inr result \<Rightarrow>
                    deliver_result st1 result story_data context_id username ''Jira story''))"

text \<open>The scan of \<^verbatim>\<open>submit_answers\<close>: the first stored context of the user.\<close>

fun find_context :: "(string \<times> follow_up_context) list \<Rightarrow> string \<Rightarrow> follow_up_context option" where
  "find_context [] username = None"
| "find_context ((ctx_id, ctx_data) # rest) username =
     (if user ctx_data = username then Some ctx_data else find_context rest username)"

definition submit_answers ::
  "runtime \<Rightarrow> app_state \<Rightarrow> (string \<rightharpoonup> string) \<Rightarrow> string \<Rightarrow> (exn + json) \<times> app_state" where
  "submit_answers rt st answers username =
     on_exception rt ''Answer submission error: '' ''Failed to process answers: ''
       (case find_context (follow_up_contexts st) username of
          None \<Rightarrow> (Inl (HTTPException 404 ''Context not found''), st)
        | Some ctx \<Rightarrow>
            (case generate_refined_test_cases rt (original_text ctx) (questions ctx) answers
                    (maxTestCases (admin_settings st)) of
               Inl e \<Rightarrow> (Inl e, st)
             | Inr result \<Rightarrow>
                 (let st1 = log_activity st ''INFO'' ''Generated refined test cases with user answers''
                  in case py_getitem result ''testCases'' of
                       Inl e \<Rightarrow> (Inl e, st1)
                     | Inr tcs \<Rightarrow> (Inr (JObj [(''testCases'', tcs)]), st1))))"


section \<open>Notions the properties are stated with\<close>

text \<open>A response dictionary carries a key.\<close>

definition carries :: "json \<Rightarrow> string \<Rightarrow> bool" where
  "carries resp k = (case resp of JObj kvs \<Rightarrow> map_of kvs k \<noteq> None | _ \<Rightarrow> False)"

text \<open>Exactly one of the two variants: follow-up questions or test cases.\<close>

definition one_variant :: "json \<Rightarrow> bool" where
  "one_variant resp = (carries resp ''followUpQuestions'' \<noteq> carries resp ''testCases'')"

text \<open>The number of test cases a result holds: the length of its \<^verbatim>\<open>testCases\<close> list.\<close>

definition num_test_cases :: "json \<Rightarrow> nat" where
  "num_test_cases result =
     (case result of
        JObj kvs \<Rightarrow> (case map_of kvs ''testCases'' of Some (JArr tcs) \<Rightarrow> length tcs | _ \<Rightarrow> 0)
      | _ \<Rightarrow> 0)"


text \<open>A parsed result that carries a truthy \<^verbatim>\<open>followUpQuestions\<close> entry of its own.\<close>

definition own_questions :: "json \<Rightarrow> bool" where
  "own_questions parsed =
     (case parsed of
        JObj kvs \<Rightarrow> (case map_of kvs ''followUpQuestions'' of None \<Rightarrow> False | Some fq \<Rightarrow> truthy fq)
      | _ \<Rightarrow> False)"

text \<open>The dictionary with the fixed questions that the clarification branch returns.\<close>

definition fixed_questions :: "string \<Rightarrow> json" where
  "fixed_questions src = JObj [(''followUpQuestions'', JArr (map JStr (propose_followups src)))]"

text \<open>
  The lines of a text: the pieces between its newline characters, and none for the
  empty text.
\<close>

fun split_at :: "char \<Rightarrow> string \<Rightarrow> string list" where
  "split_at c [] = [[]]"
| "split_at c (x # xs) =
     (if x = c then [] # split_at c xs
      else (case split_at c xs of [] \<Rightarrow> [[x]] | l # ls \<Rightarrow> (x # l) # ls))"

definition lines_of :: "string \<Rightarrow> string list" where
  "lines_of block = (if block = [] then [] else split_at (CHR 0x0A) block)"

definition is_object :: "json \<Rightarrow> bool" where
  "is_object v = (case v of JObj kvs \<Rightarrow> True | _ \<Rightarrow> False)"

text \<open>
  The balanced \<^verbatim>\<open>{...}\<close> regions of a text: every closing brace that has an opening
  brace still open before it closes one region; \<open>depth\<close> counts the braces still open.
\<close>

fun balanced_regions :: "nat \<Rightarrow> string \<Rightarrow> nat" where
  "balanced_regions depth [] = 0"
| "balanced_regions depth (c # cs) =
     (if c = CHR ''{'' then balanced_regions (Suc depth) cs
      else if c = CHR ''}'' then
        (case depth of 0 \<Rightarrow> balanced_regions 0 cs | Suc d \<Rightarrow> Suc (balanced_regions d cs))
      else balanced_regions depth cs)"

text \<open>
  The reading of the acceptance text as the first of the field names whose field is
  present and not empty.
\<close>

definition first_present_nonempty :: "json \<Rightarrow> string list \<Rightarrow> json option" where
  "first_present_nonempty flds keys =
     (case flds of
        JObj kvs \<Rightarrow>
          (case filter truthy (List.map_filter (map_of kvs) keys) of
             [] \<Rightarrow> None
           | v # _ \<Rightarrow> Some v)
      | _ \<Rightarrow> None)"

text \<open>A field value at which the loop over the field names stops.\<close>

definition ends_search :: "json option \<Rightarrow> bool" where
  "ends_search val = (case val of Some (JStr s) \<Rightarrow> True | Some (JObj kvs) \<Rightarrow> True | _ \<Rightarrow> False)"

subsection \<open>Collaborators for evaluation\<close>

text \<open>
  A runtime whose model answers every prompt with the given text and whose strict
  parser is \<open>json_loads\<close>. \<open>exn_text\<close> renders an \<open>HTTPException\<close> as Starlette does
  (\<^verbatim>\<open>"{status_code}: {detail}"\<close>), a \<open>KeyError\<close> as the quoted key and an
  \<open>Exception\<close> as its message; for the built-in errors, whose message names the object
  at fault, it gives the class name. \<open>value_text\<close> renders \<^verbatim>\<open>None\<close>, booleans and
  integers; the evaluations below format strings only.
\<close>

definition exn_text :: "exn \<Rightarrow> string" where
  "exn_text e =
     (case e of
        AttributeError \<Rightarrow> ''AttributeError''
      | TypeError \<Rightarrow> ''TypeError''
      | KeyError k \<Rightarrow> [CHR 0x27] @ k @ [CHR 0x27]
      | JSONDecodeError \<Rightarrow> ''JSONDecodeError''
      | HTTPException c d \<Rightarrow> str_of_nat c @ '': '' @ d
      | Exception m \<Rightarrow> m)"

definition value_text :: "json \<Rightarrow> string" where
  "value_text v =
     (case v of
        JNull \<Rightarrow> ''None''
      | JBool b \<Rightarrow> (if b then ''True'' else ''False'')
      | JInt i \<Rightarrow> str_of_int i
      | JStr s \<Rightarrow> s
      | _ \<Rightarrow> [])"

definition replying :: "string \<Rightarrow> runtime" where
  "replying reply =
     \<lparr>loads = json_loads, ainvoke = (\<lambda>prompt. Inr reply),
      py_str = value_text, exn_str = exn_text\<rparr>"

text \<open>A Jira server that answers every request with status 200 and the given issue.\<close>

definition jira_answering :: "json \<Rightarrow> string \<Rightarrow> (string \<times> string) list \<Rightarrow> exn + response" where
  "jira_answering issue url headers = Inr \<lparr>status_code = 200, body = [], json_body = Inr issue\<rparr>"

text \<open>Model responses and a store used in the evaluations.\<close>

definition two_cases :: string where
  \<open>two_cases = ''{"testCases":[{"testCaseId":"TC-001"},{"testCaseId":"TC-002"}]}''\<close>

definition three_cases :: string where
  \<open>three_cases =
     ''{"testCases":[{"testCaseId":"TC-001"},{"testCaseId":"TC-002"},{"testCaseId":"TC-003"}]}''\<close>

definition default_settings :: settings where
  "default_settings =
     \<lparr>geminiApiKey = [], jiraToken = [], maxTestCases = 10, enableFollowUpQuestions = True\<rparr>"

definition empty_state :: app_state where
  "empty_state = \<lparr>follow_up_contexts = [], system_logs = [], admin_settings = default_settings\<rparr>"

definition alice_context :: follow_up_context where
  "alice_context =
     \<lparr>original_text = ''patient consent withdrawal flow'',
      questions = JArr (map JStr (propose_followups [])),
      user = ''alice''\<rparr>"

definition alice_waiting :: app_state where
  "alice_waiting = empty_state\<lparr>follow_up_contexts := [(''ctx-1'', alice_context)]\<rparr>"




section \<open>Properties of the response parser\<close>

subsection \<open>Searching and slicing\<close>

lemma py_find_range: "- 1 \<le> py_find xs c \<and> py_find xs c < int (length xs)"
  by (induction xs) (auto simp: Let_def)

lemma py_find_none: "(py_find xs c = - 1) = (c \<notin> set xs)"
proof (induction xs)
  case Nil show ?case by simp
next
  case (Cons x xs)
  have "- 1 \<le> py_find xs c" using py_find_range by blast
  then show ?case using Cons by (auto simp: Let_def)
qed

lemma py_find_append: "c \<notin> set p \<Longrightarrow> py_find (p @ c # r) c = int (length p)"
  by (induction p) (auto simp: Let_def)

lemma py_rfind_range: "- 1 \<le> py_rfind xs c \<and> py_rfind xs c < int (length xs)"
  by (induction xs) (auto simp: Let_def)

lemma py_rfind_none: "(py_rfind xs c = - 1) = (c \<notin> set xs)"
proof (induction xs)
  case Nil show ?case by simp
next
  case (Cons x xs)
  have "- 1 \<le> py_rfind xs c" using py_rfind_range by blast
  then show ?case using Cons by (auto simp: Let_def)
qed

lemma py_rfind_append: "c \<notin> set s \<Longrightarrow> py_rfind (p @ c # s) c = int (length p)"
proof (induction p)
  case Nil
  then show ?case using py_rfind_none [of s c] by (simp add: Let_def)
next
  case (Cons a p)
  then show ?case by (simp add: Let_def)
qed

lemma py_find_nth: "py_find xs c \<noteq> - 1 \<Longrightarrow> xs ! nat (py_find xs c) = c"
proof (induction xs)
  case Nil then show ?case by simp
next
  case (Cons x xs)
  have r: "- 1 \<le> py_find xs c" using py_find_range by blast
  show ?case
  proof (cases "x = c")
    case True then show ?thesis by simp
  next
    case False
    with Cons.prems have ne: "py_find xs c \<noteq> - 1" by (auto simp: Let_def split: if_splits)
    with r have "0 \<le> py_find xs c" by arith
    then have "nat (py_find xs c + 1) = Suc (nat (py_find xs c))" by arith
    with False ne Cons.IH show ?thesis by (simp add: Let_def)
  qed
qed

lemma py_rfind_nth: "py_rfind xs c \<noteq> - 1 \<Longrightarrow> xs ! nat (py_rfind xs c) = c"
proof (induction xs)
  case Nil then show ?case by simp
next
  case (Cons x xs)
  have r: "- 1 \<le> py_rfind xs c" using py_rfind_range by blast
  show ?case
  proof (cases "py_rfind xs c = - 1")
    case True
    with Cons.prems show ?thesis by (auto simp: Let_def split: if_splits)
  next
    case False
    with r have "0 \<le> py_rfind xs c" by arith
    then have "nat (py_rfind xs c + 1) = Suc (nat (py_rfind xs c))" by arith
    with False Cons.IH show ?thesis by (simp add: Let_def)
  qed
qed

lemma split_two:
  assumes "i < j" "j < length xs"
  shows "xs = take i xs @ xs ! i # take (j - i - 1) (drop (Suc i) xs) @ xs ! j # drop (Suc j) xs"
proof -
  have a: "xs = take i xs @ xs ! i # drop (Suc i) xs"
    using assms by (simp add: id_take_nth_drop)
  let ?r = "drop (Suc i) xs"
  have lt: "j - i - 1 < length ?r" using assms by simp
  have b: "?r = take (j - i - 1) ?r @ ?r ! (j - i - 1) # drop (Suc (j - i - 1)) ?r"
    using lt by (rule id_take_nth_drop)
  have c: "?r ! (j - i - 1) = xs ! j" using assms by simp
  have d: "drop (Suc (j - i - 1)) ?r = drop (Suc j) xs" using assms by simp
  show ?thesis using a b c d by metis
qed

lemma slice_span:
  "py_slice (p @ a # m @ b # s) (int (length p)) (int (length p) + int (length m) + 1 + 1) = a # m @ [b]"
  by (simp add: py_slice_def slice_bound_def nat_add_distrib)


lemma safe_parse_json_span:
  assumes "ld (p @ CHR ''{'' # m @ CHR ''}'' # s) = Inl e"
      and "CHR ''{'' \<notin> set p" and "CHR ''}'' \<notin> set s"
  shows "safe_parse_json ld (p @ CHR ''{'' # m @ CHR ''}'' # s) =
           (case ld (CHR ''{'' # m @ [CHR ''}'']) of Inr v \<Rightarrow> Inr v | Inl _ \<Rightarrow> Inr JNull)"
proof -
  let ?t = "p @ CHR ''{'' # m @ CHR ''}'' # s"
  have f: "py_find ?t (CHR ''{'') = int (length p)"
    using assms(2) by (rule py_find_append)
  have "py_rfind ((p @ CHR ''{'' # m) @ CHR ''}'' # s) (CHR ''}'') = int (length (p @ CHR ''{'' # m))"
    using assms(3) by (rule py_rfind_append)
  then have r: "py_rfind ?t (CHR ''}'') = int (length p) + int (length m) + 1" by simp
  have sl: "py_slice ?t (int (length p)) (int (length p) + int (length m) + 1 + 1) = CHR ''{'' # m @ [CHR ''}'']"
    by (rule slice_span)
  show ?thesis
    unfolding safe_parse_json_def using assms(1) f r sl by (simp add: Let_def)
qed

lemma no_span_null:
  assumes "ld t = Inl e"
      and "\<not> (\<exists>p m s. t = p @ CHR ''{'' # m @ CHR ''}'' # s)"
  shows "safe_parse_json ld t = Inr JNull"
proof -
  let ?i = "py_find t (CHR ''{'')" and ?j = "py_rfind t (CHR ''}'')"
  have "\<not> (?i \<noteq> - 1 \<and> ?j \<noteq> - 1 \<and> ?j > ?i)"
  proof
    assume h: "?i \<noteq> - 1 \<and> ?j \<noteq> - 1 \<and> ?j > ?i"
    have i0: "0 \<le> ?i" using h py_find_range [of t "CHR ''{''"] by arith
    have jl: "?j < int (length t)" using py_rfind_range [of t "CHR ''}''"] by simp
    have lt: "nat ?i < nat ?j" using h i0 by arith
    have jl': "nat ?j < length t" using jl h i0 by arith
    have a: "t ! nat ?i = CHR ''{''" using h by (simp add: py_find_nth)
    have b: "t ! nat ?j = CHR ''}''" using h by (simp add: py_rfind_nth)
    from split_two [OF lt jl'] a b
    have "t = take (nat ?i) t @ CHR ''{'' # take (nat ?j - nat ?i - 1) (drop (Suc (nat ?i)) t) @ CHR ''}'' # drop (Suc (nat ?j)) t"
      by simp
    with assms(2) show False by blast
  qed
  then show ?thesis
    unfolding safe_parse_json_def using assms(1) by (auto simp: Let_def)
qed


subsection \<open>The parser is total\<close>

text \<open>
  Claim C4. For every input text and every strict parser, \<open>safe_parse_json\<close> never
  raises: it returns a value. It returns the strict parse of the whole text when that
  succeeds. Otherwise, when the text contains an opening brace and a later closing
  brace (it splits at the first \<open>{\<close> and the last \<open>}\<close> into \<open>p\<close>, the braces around
  \<open>m\<close>, and \<open>s\<close>), it returns the strict parse of the text from the first \<open>{\<close> through
  the last \<open>}\<close>, or \<^verbatim>\<open>None\<close> when that fails too. In every remaining case it returns
  \<^verbatim>\<open>None\<close>.
\<close>

theorem safe_parse_json_never_raises:
  "(\<exists>v. safe_parse_json ld t = Inr v) \<and>
   (ld t = Inr v \<longrightarrow> safe_parse_json ld t = Inr v) \<and>
   (ld t = Inl e \<and> t = p @ CHR ''{'' # m @ CHR ''}'' # s \<and> CHR ''{'' \<notin> set p \<and> CHR ''}'' \<notin> set s \<longrightarrow>
      safe_parse_json ld t =
        (case ld (CHR ''{'' # m @ [CHR ''}'']) of Inr w \<Rightarrow> Inr w | Inl _ \<Rightarrow> Inr JNull)) \<and>
   (ld t = Inl e \<and> \<not> (\<exists>p m s. t = p @ CHR ''{'' # m @ CHR ''}'' # s) \<longrightarrow>
      safe_parse_json ld t = Inr JNull)"
proof (intro conjI impI)
  show "\<exists>v. safe_parse_json ld t = Inr v"
    unfolding safe_parse_json_def by (auto simp: Let_def split: sum.splits)
next
  assume "ld t = Inr v"
  then show "safe_parse_json ld t = Inr v" by (simp add: safe_parse_json_def)
next
  assume h: "ld t = Inl e \<and> t = p @ CHR ''{'' # m @ CHR ''}'' # s \<and> CHR ''{'' \<notin> set p \<and> CHR ''}'' \<notin> set s"
  then have a: "ld (p @ CHR ''{'' # m @ CHR ''}'' # s) = Inl e"
    and b: "t = p @ CHR ''{'' # m @ CHR ''}'' # s"
    and c: "CHR ''{'' \<notin> set p" and d: "CHR ''}'' \<notin> set s" by auto
  show "safe_parse_json ld t =
        (case ld (CHR ''{'' # m @ [CHR ''}'']) of Inr w \<Rightarrow> Inr w | Inl _ \<Rightarrow> Inr JNull)"
    unfolding b using safe_parse_json_span [of ld p m s e] a c d by simp
next
  assume "ld t = Inl e \<and> \<not> (\<exists>p m s. t = p @ CHR ''{'' # m @ CHR ''}'' # s)"
  then show "safe_parse_json ld t = Inr JNull" using no_span_null by blast
qed

theorem safe_parse_json_never_raises_witness:
  \<open>safe_parse_json json_loads ''{"a":1}'' = Inr (JObj [(''a'', JInt 1)]) \<and>
   safe_parse_json json_loads ''Sure: {"a":1} ok'' = Inr (JObj [(''a'', JInt 1)]) \<and>
   safe_parse_json json_loads ''plain text'' = Inr JNull\<close>
proof -
  have a: \<open>json_loads ''{"a":1}'' = Inr (JObj [(''a'', JInt 1)])\<close> by code_simp
  have a': \<open>json_loads (CHR ''{'' # ''"a":1'' @ [CHR ''}'']) = Inr (JObj [(''a'', JInt 1)])\<close> by code_simp
  have b: \<open>json_loads ''Sure: {"a":1} ok'' = Inl JSONDecodeError\<close> by code_simp
  have b': \<open>''Sure: {"a":1} ok'' = ''Sure: '' @ CHR ''{'' # ''"a":1'' @ CHR ''}'' # '' ok''\<close> by simp
  have n1: \<open>CHR ''{'' \<notin> set ''Sure: ''\<close> by simp
  have n2: \<open>CHR ''}'' \<notin> set '' ok''\<close> by simp
  have d: \<open>json_loads ''plain text'' = Inl JSONDecodeError\<close> by code_simp
  have d': \<open>\<not> (\<exists>p m s. ''plain text'' = p @ CHR ''{'' # m @ CHR ''}'' # s)\<close>
  proof
    assume \<open>\<exists>p m s. ''plain text'' = p @ CHR ''{'' # m @ CHR ''}'' # s\<close>
    then obtain p m s where e: \<open>''plain text'' = p @ CHR ''{'' # m @ CHR ''}'' # s\<close> by (elim exE)
    have \<open>CHR ''{'' \<in> set ''plain text''\<close> by (subst e) simp
    then show False by simp
  qed
  have 1: \<open>safe_parse_json json_loads ''{"a":1}'' = Inr (JObj [(''a'', JInt 1)])\<close>
    by (rule safe_parse_json_never_raises [where ld = json_loads and t = \<open>''{"a":1}''\<close>,
          THEN conjunct2, THEN conjunct1, THEN mp, OF a])
  have \<open>safe_parse_json json_loads ''Sure: {"a":1} ok'' =
          (case json_loads (CHR ''{'' # ''"a":1'' @ [CHR ''}'']) of Inr w \<Rightarrow> Inr w | Inl _ \<Rightarrow> Inr JNull)\<close>
    by (rule safe_parse_json_never_raises [where ld = json_loads and t = \<open>''Sure: {"a":1} ok''\<close>
          and p = \<open>''Sure: ''\<close> and m = \<open>''"a":1''\<close> and s = \<open>'' ok''\<close>,
          THEN conjunct2, THEN conjunct2, THEN conjunct1, THEN mp,
          OF conjI [OF b conjI [OF b' conjI [OF n1 n2]]]])
  then have 2: \<open>safe_parse_json json_loads ''Sure: {"a":1} ok'' = Inr (JObj [(''a'', JInt 1)])\<close>
    by (simp only: a' sum.case)
  have 3: \<open>safe_parse_json json_loads ''plain text'' = Inr JNull\<close>
    by (rule safe_parse_json_never_raises [where ld = json_loads and t = \<open>''plain text''\<close>,
          THEN conjunct2, THEN conjunct2, THEN conjunct2, THEN mp, OF conjI [OF d d']])
  show ?thesis by (intro conjI 1 2 3)
qed

subsection \<open>Prose around the JSON text\<close>

text \<open>
  Claim C7, as stated: for every text \<open>j\<close> that parses as valid JSON and all non-JSON
  prose \<open>p\<close> and \<open>s\<close> such that \<open>p + j + s\<close> contains exactly one balanced \<open>{...}\<close>
  region, parsing \<open>p + j + s\<close> gives what parsing \<open>j\<close> gives. It fails when the prose
  holds a brace of its own: after the object \<^verbatim>\<open>{"a":1}\<close>, the suffix \<^verbatim>\<open> }\<close> moves the
  last closing brace, the text between the first \<open>{\<close> and the last \<open>}\<close> is no longer
  JSON, and the parser returns \<^verbatim>\<open>None\<close>.
\<close>

theorem stray_brace_counterexample:
  \<open>json_loads ''{"a":1}'' = Inr (JObj [(''a'', JInt 1)]) \<and>
   json_loads ''Result: '' = Inl JSONDecodeError \<and>
   json_loads '' }'' = Inl JSONDecodeError \<and>
   balanced_regions 0 (''Result: '' @ ''{"a":1}'' @ '' }'') = 1 \<and>
   safe_parse_json json_loads ''{"a":1}'' = Inr (JObj [(''a'', JInt 1)]) \<and>
   safe_parse_json json_loads (''Result: '' @ ''{"a":1}'' @ '' }'') = Inr JNull \<and>
   safe_parse_json json_loads (''Result: '' @ ''{"a":1}'' @ '' }'') \<noteq>
     safe_parse_json json_loads ''{"a":1}''\<close>
  by code_simp

text \<open>
  Claim C7, amended: for every text \<open>j\<close> that starts with \<open>{\<close>, ends with \<open>}\<close> and
  parses as valid JSON, every prefix \<open>p\<close> without an opening brace and every suffix
  \<open>s\<close> without a closing brace such that \<open>p + j + s\<close> is not itself valid JSON, parsing
  \<open>p + j + s\<close> returns the same structure as parsing \<open>j\<close> alone.
\<close>

theorem prose_around_object:
  assumes "ld (CHR ''{'' # m @ [CHR ''}'']) = Inr v"
      and "CHR ''{'' \<notin> set p" and "CHR ''}'' \<notin> set s"
      and "ld (p @ (CHR ''{'' # m @ [CHR ''}'']) @ s) = Inl e"
  shows "safe_parse_json ld (p @ (CHR ''{'' # m @ [CHR ''}'']) @ s) =
         safe_parse_json ld (CHR ''{'' # m @ [CHR ''}''])"
proof -
  have eq: "p @ (CHR ''{'' # m @ [CHR ''}'']) @ s = p @ CHR ''{'' # m @ CHR ''}'' # s" by simp
  have "safe_parse_json ld (p @ CHR ''{'' # m @ CHR ''}'' # s) =
          (case ld (CHR ''{'' # m @ [CHR ''}'']) of Inr w \<Rightarrow> Inr w | Inl _ \<Rightarrow> Inr JNull)"
    using safe_parse_json_span [of ld p m s e] assms(2,3,4) eq by simp
  moreover have "safe_parse_json ld (CHR ''{'' # m @ [CHR ''}'']) = Inr v"
    using assms(1) by (simp add: safe_parse_json_def)
  ultimately show ?thesis using assms(1) eq by simp
qed

theorem prose_around_object_witness:
  \<open>safe_parse_json json_loads (''Sure: '' @ (CHR ''{'' # ''"a":1'' @ [CHR ''}'']) @ '' ok'') =
   safe_parse_json json_loads (CHR ''{'' # ''"a":1'' @ [CHR ''}''])\<close>
proof -
  have a: \<open>json_loads (CHR ''{'' # ''"a":1'' @ [CHR ''}'']) = Inr (JObj [(''a'', JInt 1)])\<close> by code_simp
  have b: \<open>json_loads (''Sure: '' @ (CHR ''{'' # ''"a":1'' @ [CHR ''}'']) @ '' ok'') = Inl JSONDecodeError\<close>
    by code_simp
  have n1: \<open>CHR ''{'' \<notin> set ''Sure: ''\<close> by simp
  have n2: \<open>CHR ''}'' \<notin> set '' ok''\<close> by simp
  show ?thesis
    by (rule prose_around_object [where ld = json_loads and p = \<open>''Sure: ''\<close> and m = \<open>''"a":1''\<close>
          and s = \<open>'' ok''\<close>, OF a n1 n2 b])
qed

section \<open>Properties of the generation run\<close>

lemma or_empty_result_truthy: "truthy v \<Longrightarrow> or_empty_result v = v"
  by (simp add: or_empty_result_def)

lemma py_get_non_object: "\<not> is_object v \<Longrightarrow> py_get v k d = Inl AttributeError"
  by (cases v) (simp_all add: is_object_def)

text \<open>
  Claim C10. There are model responses that are valid JSON, but not a JSON object, on
  which \<open>generate_test_cases\<close> raises instead of returning test cases or follow-up
  questions: with follow-up questions enabled, every response whose strict parse is a
  truthy value other than a dictionary (a non-empty list, say) ends in the
  \<^verbatim>\<open>AttributeError\<close> of \<^verbatim>\<open>parsed.get\<close>.
\<close>

theorem non_object_json_raises:
  assumes "ainvoke rt (build_generation_prompt src mx) = Inr content"
      and "loads rt content = Inr v"
      and "truthy v" and "\<not> is_object v"
  shows "generate_test_cases rt src mx True = Inl AttributeError"
proof -
  have p: "safe_parse_json (loads rt) content = Inr v"
    using assms(2) by (simp add: safe_parse_json_def)
  have w: "followups_wanted True v = Inl AttributeError"
    using assms(4) by (simp add: followups_wanted_def py_get_non_object bindE_def)
  show ?thesis
    unfolding generate_test_cases_def
    using assms(1,3) p w by (simp add: bindE_def or_empty_result_truthy)
qed

theorem non_object_json_raises_witness:
  "loads (replying ''[1]'') ''[1]'' = Inr (JArr [JInt 1]) \<and>
   generate_test_cases (replying ''[1]'') ''story'' 10 True = Inl AttributeError"
proof -
  have a: "ainvoke (replying ''[1]'') (build_generation_prompt ''story'' 10) = Inr ''[1]''"
    by (simp add: replying_def)
  have b: "loads (replying ''[1]'') ''[1]'' = Inr (JArr [JInt 1])" by code_simp
  have c: "truthy (JArr [JInt 1])" by simp
  have d: "\<not> is_object (JArr [JInt 1])" by (simp add: is_object_def)
  from non_object_json_raises [OF a b c d] b show ?thesis by simp
qed

lemma num_test_cases_followups [simp]:
  "num_test_cases (JObj [(''followUpQuestions'', qs)]) = 0"
  by (simp add: num_test_cases_def)

lemma num_test_cases_or_empty: "num_test_cases (or_empty_result p) = num_test_cases p"
  by (cases p) (auto simp: or_empty_result_def num_test_cases_def)

text \<open>
  Claim C2, as stated: the result of a generation or refinement run never holds more
  than \<^verbatim>\<open>maxTestCases\<close> test cases. The service writes the number into the prompt and
  never applies it to the parsed response: with a maximum of 2, a response with three
  test cases is returned with all three.
\<close>

theorem max_cases_not_enforced_counterexample:
  "generate_test_cases (replying three_cases) ''story'' 2 True =
     Inr (JObj [(''testCases'',
            JArr [JObj [(''testCaseId'', JStr ''TC-001'')], JObj [(''testCaseId'', JStr ''TC-002'')],
                  JObj [(''testCaseId'', JStr ''TC-003'')]])]) \<and>
   num_test_cases (JObj [(''testCases'',
            JArr [JObj [(''testCaseId'', JStr ''TC-001'')], JObj [(''testCaseId'', JStr ''TC-002'')],
                  JObj [(''testCaseId'', JStr ''TC-003'')]])]) = 3 \<and>
   \<not> int (num_test_cases (JObj [(''testCases'',
            JArr [JObj [(''testCaseId'', JStr ''TC-001'')], JObj [(''testCaseId'', JStr ''TC-002'')],
                  JObj [(''testCaseId'', JStr ''TC-003'')]])])) \<le> 2"
  by code_simp

text \<open>
  Claim C2, amended: the result of a generation or refinement run holds at least zero
  test cases and at most as many as the parsed model response holds. A generation run
  returns either the fixed follow-up questions, which hold no test case, or the parsed
  response itself (\<^verbatim>\<open>{'testCases': []}\<close> for an empty parse); with follow-up questions
  disabled, and in every refinement run, it is the parsed response itself.
  \<^verbatim>\<open>maxTestCases\<close> is only written into the prompt and never applied to the parsed
  response: the result is within it whenever the parsed response is.
\<close>

theorem result_size_follows_response:
  "(generate_test_cases rt src mx enable = Inr r \<and>
    ainvoke rt (build_generation_prompt src mx) = Inr content \<and>
    safe_parse_json (loads rt) content = Inr parsed \<longrightarrow>
      (r = fixed_questions src \<or> r = or_empty_result parsed) \<and>
      num_test_cases r \<le> num_test_cases parsed \<and>
      (\<not> enable \<longrightarrow> r = or_empty_result parsed) \<and>
      (int (num_test_cases parsed) \<le> mx \<longrightarrow> int (num_test_cases r) \<le> mx)) \<and>
   (generate_refined_test_cases rt src qv answers mx = Inr r' \<and>
    py_iter qv = Inr qs \<and>
    ainvoke rt (build_refinement_prompt src (qa_block_of rt qs answers) mx) = Inr content' \<and>
    safe_parse_json (loads rt) content' = Inr parsed' \<longrightarrow>
      r' = or_empty_result parsed' \<and> num_test_cases r' = num_test_cases parsed')"
proof (intro conjI impI)
  assume h: "generate_test_cases rt src mx enable = Inr r \<and>
    ainvoke rt (build_generation_prompt src mx) = Inr content \<and>
    safe_parse_json (loads rt) content = Inr parsed"
  then have h1: "generate_test_cases rt src mx enable = Inr r"
    and h2: "ainvoke rt (build_generation_prompt src mx) = Inr content"
    and h3: "safe_parse_json (loads rt) content = Inr parsed" by blast+
  have g: "bindE (followups_wanted enable (or_empty_result parsed)) (\<lambda>wanted.
       if wanted then Inr (fixed_questions src) else Inr (or_empty_result parsed)) = Inr r"
    using h1 unfolding generate_test_cases_def fixed_questions_def
    by (simp add: h2 h3 bindE_def Let_def)
  then show alt: "r = fixed_questions src \<or> r = or_empty_result parsed"
    by (auto simp: bindE_def split: sum.splits if_splits)
  then show le: "num_test_cases r \<le> num_test_cases parsed"
    by (auto simp: num_test_cases_or_empty fixed_questions_def)
  {
    assume "\<not> enable"
    with g show "r = or_empty_result parsed"
      by (simp add: followups_wanted_def bindE_def)
  }
  {
    assume "int (num_test_cases parsed) \<le> mx"
    with le show "int (num_test_cases r) \<le> mx" by simp
  }
next
  assume h: "generate_refined_test_cases rt src qv answers mx = Inr r' \<and>
    py_iter qv = Inr qs \<and>
    ainvoke rt (build_refinement_prompt src (qa_block_of rt qs answers) mx) = Inr content' \<and>
    safe_parse_json (loads rt) content' = Inr parsed'"
  then have k1: "generate_refined_test_cases rt src qv answers mx = Inr r'"
    and k0: "py_iter qv = Inr qs"
    and k2: "ainvoke rt (build_refinement_prompt src (qa_block_of rt qs answers) mx) = Inr content'"
    and k3: "safe_parse_json (loads rt) content' = Inr parsed'" by blast+
  show r: "r' = or_empty_result parsed'"
    using k1 unfolding generate_refined_test_cases_def by (simp add: k0 k2 k3 bindE_def Let_def)
  then show "num_test_cases r' = num_test_cases parsed'"
    by (simp add: num_test_cases_or_empty)
qed

theorem result_size_follows_response_witness:
  "generate_test_cases (replying three_cases) ''story'' 10 True =
     Inr (JObj [(''testCases'',
            JArr [JObj [(''testCaseId'', JStr ''TC-001'')], JObj [(''testCaseId'', JStr ''TC-002'')],
                  JObj [(''testCaseId'', JStr ''TC-003'')]])]) \<and>
   num_test_cases (JObj [(''testCases'',
            JArr [JObj [(''testCaseId'', JStr ''TC-001'')], JObj [(''testCaseId'', JStr ''TC-002'')],
                  JObj [(''testCaseId'', JStr ''TC-003'')]])]) \<le> 3 \<and>
   generate_refined_test_cases (replying two_cases) ''story''
       (JArr (map JStr (propose_followups ''story''))) Map.empty 10 =
     Inr (JObj [(''testCases'',
            JArr [JObj [(''testCaseId'', JStr ''TC-001'')], JObj [(''testCaseId'', JStr ''TC-002'')]])]) \<and>
   num_test_cases (JObj [(''testCases'',
            JArr [JObj [(''testCaseId'', JStr ''TC-001'')], JObj [(''testCaseId'', JStr ''TC-002'')]])]) = 2"
proof -
  let ?p2 = "JObj [(''testCases'',
            JArr [JObj [(''testCaseId'', JStr ''TC-001'')], JObj [(''testCaseId'', JStr ''TC-002'')]])]"
  let ?p3 = "JObj [(''testCases'',
            JArr [JObj [(''testCaseId'', JStr ''TC-001'')], JObj [(''testCaseId'', JStr ''TC-002'')],
                  JObj [(''testCaseId'', JStr ''TC-003'')]])]"
  let ?qs = "map JStr (propose_followups ''story'')"
  have g: "generate_test_cases (replying three_cases) ''story'' 10 True = Inr ?p3" by code_simp
  have a: "ainvoke (replying three_cases) (build_generation_prompt ''story'' 10) = Inr three_cases"
    by (simp add: replying_def)
  have b: "safe_parse_json (loads (replying three_cases)) three_cases = Inr ?p3" by code_simp
  have n3: "num_test_cases ?p3 = 3" by (simp add: num_test_cases_def)
  have g': "generate_refined_test_cases (replying two_cases) ''story'' (JArr ?qs) Map.empty 10 = Inr ?p2"
    by code_simp
  have i': "py_iter (JArr ?qs) = Inr ?qs" by simp
  have a': "ainvoke (replying two_cases)
              (build_refinement_prompt ''story'' (qa_block_of (replying two_cases) ?qs Map.empty) 10) =
            Inr two_cases"
    by (simp add: replying_def)
  have b': "safe_parse_json (loads (replying two_cases)) two_cases = Inr ?p2" by code_simp
  have 1: "num_test_cases ?p3 \<le> num_test_cases ?p3"
    using result_size_follows_response [where rt = "replying three_cases" and src = "''story''"
        and mx = 10 and enable = True and r = ?p3 and content = three_cases and parsed = ?p3,
        THEN conjunct1, THEN mp, OF conjI [OF g conjI [OF a b]]]
    by (rule conjunct2 [THEN conjunct1])
  have 2: "num_test_cases ?p2 = num_test_cases ?p2"
    using result_size_follows_response [where rt = "replying two_cases" and src = "''story''"
        and mx = 10 and qv = "JArr ?qs" and qs = ?qs and answers = Map.empty and r' = ?p2
        and content' = two_cases and parsed' = ?p2,
        THEN conjunct2, THEN mp, OF conjI [OF g' conjI [OF i' conjI [OF a' b']]]]
    by (rule conjunct2)
  have n2: "num_test_cases ?p2 = 2" by (simp add: num_test_cases_def)
  from 1 n3 have 3: "num_test_cases ?p3 \<le> 3" by simp
  show ?thesis by (intro conjI g 3 g' n2)
qed

section \<open>Properties of the refinement prompt\<close>

lemma answer_for_lookup:
  "answer_for answers idx = (case answers (str_of_nat idx) of None \<Rightarrow> [] | Some a \<Rightarrow> a)"
  by (simp add: answer_for_def Let_def split: option.splits)

lemma qa_loop_from:
  "qa_loop rt answers k (map JStr qs) acc =
     acc @ map (\<lambda>i. ''Q: '' @ qs ! i @ '' A: '' @
                  (case answers (str_of_nat (k + i)) of None \<Rightarrow> [] | Some a \<Rightarrow> a))
             [0..<length qs]"
proof (induction qs arbitrary: k acc)
  case Nil
  show ?case by simp
next
  case (Cons q qs)
  have up: "[0..<length (q # qs)] = 0 # map Suc [0..<length qs]"
    by (simp add: upt_conv_Cons map_Suc_upt del: upt_Suc)
  show ?case
    unfolding up
    by (simp add: Cons.IH format_value_def answer_for_lookup o_def)
qed

lemma split_at_none: "c \<notin> set x \<Longrightarrow> split_at c x = [x]"
  by (induction x) auto

lemma split_at_append: "c \<notin> set x \<Longrightarrow> split_at c (x @ c # rest) = x # split_at c rest"
  by (induction x) auto

lemma split_at_join:
  "\<forall>x\<in>set xs. c \<notin> set x \<Longrightarrow> xs \<noteq> [] \<Longrightarrow> split_at c (join [c] xs) = xs"
proof (induction "[c]" xs rule: join.induct)
  case 1
  then show ?case by simp
next
  case (2 x)
  then show ?case by (simp add: split_at_none)
next
  case (3 x y ys)
  then show ?case by (simp add: split_at_append)
qed

lemma join_nonempty: "xs \<noteq> [] \<Longrightarrow> hd xs \<noteq> [] \<Longrightarrow> join sep xs \<noteq> []"
  by (induction sep xs rule: join.induct) simp_all

lemma lines_of_join:
  assumes "\<forall>x\<in>set xs. CHR 0x0A \<notin> set x \<and> x \<noteq> []"
  shows "lines_of (join [CHR 0x0A] xs) = xs"
proof (cases xs)
  case Nil
  then show ?thesis by (simp add: lines_of_def)
next
  case (Cons x ys)
  have ne: "xs \<noteq> []" using Cons by simp
  have hd: "hd xs \<noteq> []" using assms Cons by simp
  have nl: "\<forall>x\<in>set xs. CHR 0x0A \<notin> set x" using assms by simp
  have "join [CHR 0x0A] xs \<noteq> []" using ne hd by (rule join_nonempty)
  moreover have "split_at (CHR 0x0A) (join [CHR 0x0A] xs) = xs"
    using nl ne by (rule split_at_join)
  ultimately show ?thesis by (simp add: lines_of_def)
qed


lemma endswith_append: "py_endswith (a @ s) s"
  by (simp add: py_endswith_def)

lemma refinement_prompt_ends:
  "py_endswith (build_refinement_prompt src block mx)
     (''\<newline>\<newline>'' @ ''Context:\<newline>'' @ take 12000 src @ ''\<newline>\<newline>'' @
      ''Clarifications:\<newline>'' @ block @ ''\<newline>\<newline>'' @ ''Return only JSON.'')"
  unfolding build_refinement_prompt_def Let_def by (rule endswith_append)

text \<open>
  Claim C8, as stated: for every stored question list and every answer set, the Q/A
  block of the refinement prompt contains exactly one line per question. The entries
  are joined by newlines and nothing escapes a newline inside an answer: with two
  questions and the answer \<^verbatim>\<open>a\<close>, newline, \<^verbatim>\<open>b\<close> to the first, the block has three
  lines.
\<close>

theorem newline_in_answer_counterexample:
  "lines_of (qa_block_of (replying []) (map JStr [''Scope?'', ''Roles?''])
               (map_of [(''0'', ''a\<newline>b'')])) =
     [''Q: Scope? A: a'', ''b'', ''Q: Roles? A: ''] \<and>
   length (lines_of (qa_block_of (replying []) (map JStr [''Scope?'', ''Roles?''])
               (map_of [(''0'', ''a\<newline>b'')]))) = 3 \<and>
   length [''Scope?'', ''Roles?''] = 2"
  by code_simp

text \<open>
  Claim C8, amended: for every stored list of questions and every answer set, the Q/A
  block is the newline join of exactly one entry per question, in the order of the
  questions; entry \<open>i\<close> is \<^verbatim>\<open>Q: <question i> A: <answer i>\<close>, and a question whose index
  (as a string) is missing from the answer set is rendered with an empty answer,
  \<^verbatim>\<open>Q: <question i> A: \<close>, not left out. The refinement prompt ends with the context,
  \<^verbatim>\<open>Clarifications:\<close>, this block and \<^verbatim>\<open>Return only JSON.\<close>, and it is the prompt that
  \<open>generate_refined_test_cases\<close> sends. When no question and no answer contains a
  newline, the lines of the block are exactly these entries, one line per question.
\<close>

theorem qa_block_one_entry_per_question:
  "qa_loop rt answers 0 (map JStr qs) [] =
     map (\<lambda>i. ''Q: '' @ qs ! i @ '' A: '' @
                (case answers (str_of_nat i) of None \<Rightarrow> [] | Some a \<Rightarrow> a))
         [0..<length qs] \<and>
   length (qa_loop rt answers 0 (map JStr qs) []) = length qs \<and>
   (i < length qs \<and> answers (str_of_nat i) = None \<longrightarrow>
      qa_loop rt answers 0 (map JStr qs) [] ! i = ''Q: '' @ qs ! i @ '' A: '') \<and>
   qa_block_of rt (map JStr qs) answers =
     join ''\<newline>'' (qa_loop rt answers 0 (map JStr qs) []) \<and>
   py_endswith (build_refinement_prompt src (qa_block_of rt (map JStr qs) answers) mx)
     (''\<newline>\<newline>'' @ ''Context:\<newline>'' @ take 12000 src @ ''\<newline>\<newline>'' @
      ''Clarifications:\<newline>'' @ qa_block_of rt (map JStr qs) answers @
      ''\<newline>\<newline>'' @ ''Return only JSON.'') \<and>
   generate_refined_test_cases rt src (JArr (map JStr qs)) answers mx =
     bindE (ainvoke rt (build_refinement_prompt src (qa_block_of rt (map JStr qs) answers) mx))
       (\<lambda>content. bindE (safe_parse_json (loads rt) content)
                     (\<lambda>parsed. Inr (or_empty_result parsed))) \<and>
   ((\<forall>q\<in>set qs. CHR 0x0A \<notin> set q) \<and> (\<forall>k a. answers k = Some a \<longrightarrow> CHR 0x0A \<notin> set a) \<longrightarrow>
      lines_of (qa_block_of rt (map JStr qs) answers) = qa_loop rt answers 0 (map JStr qs) [])"
proof -
  let ?entries = "map (\<lambda>i. ''Q: '' @ qs ! i @ '' A: '' @
                (case answers (str_of_nat i) of None \<Rightarrow> [] | Some a \<Rightarrow> a))
         [0..<length qs]"
  have a: "qa_loop rt answers 0 (map JStr qs) [] = ?entries"
    using qa_loop_from [of rt answers 0 qs "[]"] by simp
  have b: "length (qa_loop rt answers 0 (map JStr qs) []) = length qs"
    unfolding a by simp
  have c: "i < length qs \<and> answers (str_of_nat i) = None \<longrightarrow>
      qa_loop rt answers 0 (map JStr qs) [] ! i = ''Q: '' @ qs ! i @ '' A: ''"
    unfolding a by simp
  have j: "qa_block_of rt (map JStr qs) answers =
     join ''\<newline>'' (qa_loop rt answers 0 (map JStr qs) [])"
    by (simp add: qa_block_of_def)
  have p: "py_endswith (build_refinement_prompt src (qa_block_of rt (map JStr qs) answers) mx)
     (''\<newline>\<newline>'' @ ''Context:\<newline>'' @ take 12000 src @ ''\<newline>\<newline>'' @
      ''Clarifications:\<newline>'' @ qa_block_of rt (map JStr qs) answers @
      ''\<newline>\<newline>'' @ ''Return only JSON.'')"
    by (rule refinement_prompt_ends)
  have d: "generate_refined_test_cases rt src (JArr (map JStr qs)) answers mx =
     bindE (ainvoke rt (build_refinement_prompt src (qa_block_of rt (map JStr qs) answers) mx))
       (\<lambda>content. bindE (safe_parse_json (loads rt) content)
                     (\<lambda>parsed. Inr (or_empty_result parsed)))"
    by (simp add: generate_refined_test_cases_def bindE_def Let_def)
  have l: "(\<forall>q\<in>set qs. CHR 0x0A \<notin> set q) \<and> (\<forall>k a. answers k = Some a \<longrightarrow> CHR 0x0A \<notin> set a) \<longrightarrow>
      lines_of (qa_block_of rt (map JStr qs) answers) = qa_loop rt answers 0 (map JStr qs) []"
  proof
    assume h: "(\<forall>q\<in>set qs. CHR 0x0A \<notin> set q) \<and> (\<forall>k a. answers k = Some a \<longrightarrow> CHR 0x0A \<notin> set a)"
    have "\<forall>x\<in>set ?entries. CHR 0x0A \<notin> set x \<and> x \<noteq> []"
      using h by (auto split: option.splits)
    then have "lines_of (join [CHR 0x0A] ?entries) = ?entries" by (rule lines_of_join)
    then show "lines_of (qa_block_of rt (map JStr qs) answers) = qa_loop rt answers 0 (map JStr qs) []"
      unfolding j a by simp
  qed
  show ?thesis by (intro conjI a b c j p d l)
qed

theorem qa_block_one_entry_per_question_witness:
  "map_of [(''0'', ''Clinician and Patient roles'')] (str_of_nat 1) = None \<and>
   qa_loop (replying []) (map_of [(''0'', ''Clinician and Patient roles'')]) 0
       (map JStr (propose_followups [])) [] ! 1 =
     ''Q: '' @ propose_followups [] ! 1 @ '' A: '' \<and>
   lines_of (qa_block_of (replying []) (map JStr (propose_followups []))
               (map_of [(''0'', ''Clinician and Patient roles'')])) =
     qa_loop (replying []) (map_of [(''0'', ''Clinician and Patient roles'')]) 0
       (map JStr (propose_followups [])) []"
proof -
  have l: "1 < length (propose_followups [])" by (simp add: propose_followups_def)
  have n: "map_of [(''0'', ''Clinician and Patient roles'')] (str_of_nat 1) = None" by code_simp
  have q: "qa_loop (replying []) (map_of [(''0'', ''Clinician and Patient roles'')]) 0
       (map JStr (propose_followups [])) [] ! 1 =
     ''Q: '' @ propose_followups [] ! 1 @ '' A: ''"
    by (rule qa_block_one_entry_per_question [where i = 1 and qs = "propose_followups []"
          and answers = "map_of [(''0'', ''Clinician and Patient roles'')]",
          THEN conjunct2, THEN conjunct2, THEN conjunct1, THEN mp, OF conjI [OF l n]])
  have h1: "\<forall>q\<in>set (propose_followups []). CHR 0x0A \<notin> set q"
    by (simp add: propose_followups_def)
  have h2: "\<forall>k a. map_of [(''0'', ''Clinician and Patient roles'')] k = Some a \<longrightarrow> CHR 0x0A \<notin> set a"
    by (auto split: if_splits)
  have r: "lines_of (qa_block_of (replying []) (map JStr (propose_followups []))
               (map_of [(''0'', ''Clinician and Patient roles'')])) =
     qa_loop (replying []) (map_of [(''0'', ''Clinician and Patient roles'')]) 0
       (map JStr (propose_followups [])) []"
    by (rule qa_block_one_entry_per_question [where qs = "propose_followups []"
          and answers = "map_of [(''0'', ''Clinician and Patient roles'')]",
          THEN conjunct2, THEN conjunct2, THEN conjunct2, THEN conjunct2, THEN conjunct2,
          THEN conjunct2, THEN mp, OF conjI [OF h1 h2]])
  show ?thesis by (intro conjI n q r)
qed

section \<open>Properties of the Jira service\<close>

lemma acceptance_of_skip:
  assumes "\<not> ends_search (map_of kvs k)"
  shows "acceptance_of (JObj kvs) (k # ks) = acceptance_of (JObj kvs) ks"
proof (cases "map_of kvs k")
  case None
  then show ?thesis by (simp add: bindE_def)
next
  case (Some v)
  with assms show ?thesis by (cases v) (simp_all add: bindE_def ends_search_def)
qed

lemma acceptance_of_skips:
  "\<forall>k\<in>set pre. \<not> ends_search (map_of kvs k) \<Longrightarrow>
   acceptance_of (JObj kvs) (pre @ rest) = acceptance_of (JObj kvs) rest"
proof (induction pre)
  case Nil
  show ?case by simp
next
  case (Cons a pre)
  then have "\<not> ends_search (map_of kvs a)" by simp
  then have "acceptance_of (JObj kvs) (a # (pre @ rest)) = acceptance_of (JObj kvs) (pre @ rest)"
    by (rule acceptance_of_skip)
  with Cons show ?case by (simp del: acceptance_of.simps)
qed

lemma acceptance_of_string:
  "map_of kvs k = Some (JStr s) \<Longrightarrow> acceptance_of (JObj kvs) (k # ks) = Inr s"
  by (simp add: bindE_def)

lemma acceptance_of_document:
  "map_of kvs k = Some (JObj d) \<Longrightarrow>
   acceptance_of (JObj kvs) (k # ks) =
     bindE (py_get (JObj d) ''content'' (JArr [])) (\<lambda>c.
     bindE (py_iter c) (\<lambda>blocks. adf_blocks blocks []))"
  by (simp add: bindE_def)

lemma str_plus_Inr: "str_plus a v = Inr r \<Longrightarrow> \<exists>b. r = a @ b"
  by (cases v) auto

lemma fetch_story_text:
  assumes "fetch_story requests_get base story token = Inr txt"
      and "requests_get (py_rstrip base (CHR ''/'') @ ''/rest/api/3/issue/'' @ story)
             [(''Authorization'', ''Basic '' @ token), (''Accept'', ''application/json'')] = Inr resp"
      and "json_body resp = Inr issue"
      and "py_get issue ''fields'' (JObj []) = Inr flds"
      and "acceptance_of flds acceptance_keys = Inr acc"
  shows "\<exists>sm ds. txt = ''Summary:'' @ sm @ ''Description:'' @ ds @ ''Acceptance Criteria:'' @ acc"
proof -
  have t: "token \<noteq> []" using assms(1) by (auto simp: fetch_story_def)
  have st: "status_code resp = 200"
    using assms(1,2) t by (auto simp: fetch_story_def Let_def bindE_def split: if_splits)
  from assms(1) t st assms(2,3,4,5) obtain sm' ds v where
      e: "txt = sm' @ ''Description:'' @ ds @ ''Acceptance Criteria:'' @ acc"
      and sp: "str_plus ''Summary:'' v = Inr sm'"
    by (auto simp: fetch_story_def Let_def bindE_def split: sum.splits)
  from sp obtain b where "sm' = ''Summary:'' @ b" using str_plus_Inr by blast
  with e have "txt = ''Summary:'' @ b @ ''Description:'' @ ds @ ''Acceptance Criteria:'' @ acc"
    by simp
  then show ?thesis by blast
qed

text \<open>
  Claim C9, as stated: the acceptance text comes from the first of the three field
  names whose field is present and non-empty, and a field that is present but empty is
  skipped in favour of a later name. The loop stops at the first field that holds a
  string or a dictionary, whatever its content: with an empty string under
  \<^verbatim>\<open>customfield_10034\<close> and a text under \<^verbatim>\<open>acceptanceCriteria\<close>, the story ends with
  an empty acceptance text.
\<close>

theorem empty_field_ends_search_counterexample:
  "first_present_nonempty
     (JObj [(''summary'', JStr ''S''), (''customfield_10034'', JStr []),
            (''acceptanceCriteria'', JStr ''Given X'')])
     acceptance_keys = Some (JStr ''Given X'') \<and>
   acceptance_of
     (JObj [(''summary'', JStr ''S''), (''customfield_10034'', JStr []),
            (''acceptanceCriteria'', JStr ''Given X'')])
     acceptance_keys = Inr [] \<and>
   fetch_story
     (jira_answering
        (JObj [(''fields'',
                JObj [(''summary'', JStr ''S''), (''customfield_10034'', JStr []),
                      (''acceptanceCriteria'', JStr ''Given X'')])]))
     ''https://jira.example/'' ''HC-1'' ''token'' =
     Inr ''Summary:SDescription:Acceptance Criteria:''"
  by code_simp

text \<open>
  Claim C9, amended: the acceptance text composed into the returned story string is
  taken from the first field name in the fixed order whose field holds a string or a
  dictionary (a document): a string is used as it is, a document is flattened, and the
  text is empty when no field does. Only a field that is missing, \<^verbatim>\<open>null\<close> or of
  another type is skipped; an empty string or an empty document ends the search with
  an empty acceptance text.
\<close>

theorem acceptance_from_first_string_or_document:
  "(acceptance_keys = pre @ key # post \<and> (\<forall>k\<in>set pre. \<not> ends_search (map_of kvs k)) \<and>
    map_of kvs key = Some (JStr s) \<longrightarrow>
      acceptance_of (JObj kvs) acceptance_keys = Inr s) \<and>
   (acceptance_keys = pre @ key # post \<and> (\<forall>k\<in>set pre. \<not> ends_search (map_of kvs k)) \<and>
    map_of kvs key = Some (JObj d) \<longrightarrow>
      acceptance_of (JObj kvs) acceptance_keys =
        bindE (py_get (JObj d) ''content'' (JArr [])) (\<lambda>c.
        bindE (py_iter c) (\<lambda>blocks. adf_blocks blocks []))) \<and>
   ((\<forall>k\<in>set acceptance_keys. \<not> ends_search (map_of kvs k)) \<longrightarrow>
      acceptance_of (JObj kvs) acceptance_keys = Inr []) \<and>
   (fetch_story requests_get base story token = Inr txt \<and>
    requests_get (py_rstrip base (CHR ''/'') @ ''/rest/api/3/issue/'' @ story)
      [(''Authorization'', ''Basic '' @ token), (''Accept'', ''application/json'')] = Inr resp \<and>
    json_body resp = Inr issue \<and>
    py_get issue ''fields'' (JObj []) = Inr (JObj kvs) \<and>
    acceptance_of (JObj kvs) acceptance_keys = Inr acc \<longrightarrow>
      (\<exists>sm ds. txt = ''Summary:'' @ sm @ ''Description:'' @ ds @ ''Acceptance Criteria:'' @ acc))"
proof (intro conjI impI)
  assume h: "acceptance_keys = pre @ key # post \<and> (\<forall>k\<in>set pre. \<not> ends_search (map_of kvs k)) \<and>
    map_of kvs key = Some (JStr s)"
  then have "acceptance_of (JObj kvs) acceptance_keys = acceptance_of (JObj kvs) (key # post)"
    using acceptance_of_skips [of pre kvs "key # post"] by simp
  with h show "acceptance_of (JObj kvs) acceptance_keys = Inr s"
    using acceptance_of_string [of kvs key s post] by simp
next
  assume h: "acceptance_keys = pre @ key # post \<and> (\<forall>k\<in>set pre. \<not> ends_search (map_of kvs k)) \<and>
    map_of kvs key = Some (JObj d)"
  then have "acceptance_of (JObj kvs) acceptance_keys = acceptance_of (JObj kvs) (key # post)"
    using acceptance_of_skips [of pre kvs "key # post"] by simp
  with h show "acceptance_of (JObj kvs) acceptance_keys =
        bindE (py_get (JObj d) ''content'' (JArr [])) (\<lambda>c.
        bindE (py_iter c) (\<lambda>blocks. adf_blocks blocks []))"
    using acceptance_of_document [of kvs key d post] by simp
next
  assume "\<forall>k\<in>set acceptance_keys. \<not> ends_search (map_of kvs k)"
  then show "acceptance_of (JObj kvs) acceptance_keys = Inr []"
    using acceptance_of_skips [of acceptance_keys kvs "[]"] by simp
next
  assume "fetch_story requests_get base story token = Inr txt \<and>
    requests_get (py_rstrip base (CHR ''/'') @ ''/rest/api/3/issue/'' @ story)
      [(''Authorization'', ''Basic '' @ token), (''Accept'', ''application/json'')] = Inr resp \<and>
    json_body resp = Inr issue \<and>
    py_get issue ''fields'' (JObj []) = Inr (JObj kvs) \<and>
    acceptance_of (JObj kvs) acceptance_keys = Inr acc"
  then have f1: "fetch_story requests_get base story token = Inr txt"
    and f2: "requests_get (py_rstrip base (CHR ''/'') @ ''/rest/api/3/issue/'' @ story)
      [(''Authorization'', ''Basic '' @ token), (''Accept'', ''application/json'')] = Inr resp"
    and f3: "json_body resp = Inr issue"
    and f4: "py_get issue ''fields'' (JObj []) = Inr (JObj kvs)"
    and f5: "acceptance_of (JObj kvs) acceptance_keys = Inr acc" by blast+
  from f1 f2 f3 f4 f5
  show "\<exists>sm ds. txt = ''Summary:'' @ sm @ ''Description:'' @ ds @ ''Acceptance Criteria:'' @ acc"
    by (rule fetch_story_text)
qed

theorem acceptance_from_first_string_or_document_witness:
  "acceptance_of
     (JObj [(''summary'', JStr ''S''), (''customfield_10034'', JNull),
            (''Acceptance Criteria'', JStr ''Given X''), (''acceptanceCriteria'', JStr ''Later'')])
     acceptance_keys = Inr ''Given X''"
proof -
  let ?kvs = "[(''summary'', JStr ''S''), (''customfield_10034'', JNull),
            (''Acceptance Criteria'', JStr ''Given X''), (''acceptanceCriteria'', JStr ''Later'')]"
  have a: "acceptance_keys = [''customfield_10034''] @ ''Acceptance Criteria'' # [''acceptanceCriteria'']"
    by (simp add: acceptance_keys_def)
  have b: "\<forall>k\<in>set [''customfield_10034'']. \<not> ends_search (map_of ?kvs k)"
    by (simp add: ends_search_def)
  have c: "map_of ?kvs ''Acceptance Criteria'' = Some (JStr ''Given X'')" by simp
  show ?thesis
    by (rule acceptance_from_first_string_or_document [where pre = "[''customfield_10034'']"
          and key = "''Acceptance Criteria''" and post = "[''acceptanceCriteria'']" and kvs = ?kvs
          and s = "''Given X''", THEN conjunct1, THEN mp, OF conjI [OF a conjI [OF b c]]])
qed

section \<open>Properties of the request handlers\<close>

lemma log_activity_contexts [simp]:
  "follow_up_contexts (log_activity st level message) = follow_up_contexts st"
  by (simp add: log_activity_def)

lemma on_exception_contexts [simp]:
  "follow_up_contexts (snd (on_exception rt a b outcome)) = follow_up_contexts (snd outcome)"
  by (cases outcome) (auto simp: on_exception_def split: sum.splits)

lemma on_exception_Inr:
  "fst (on_exception rt a b outcome) = Inr v \<longleftrightarrow> fst outcome = Inr v"
  by (cases outcome) (auto simp: on_exception_def split: sum.splits)

lemma submit_answers_contexts:
  "follow_up_contexts (snd (submit_answers rt st answers u)) = follow_up_contexts st"
  by (simp add: submit_answers_def Let_def split: option.splits sum.splits)

lemma submit_answers_success_found:
  assumes "fst (submit_answers rt st answers u) = Inr resp"
  shows "find_context (follow_up_contexts st) u \<noteq> None"
proof
  assume "find_context (follow_up_contexts st) u = None"
  then have "fst (submit_answers rt st answers u) =
      Inl (HTTPException 500 (''Failed to process answers: '' @
             exn_str rt (HTTPException 404 ''Context not found'')))"
    by (simp add: submit_answers_def on_exception_def)
  with assms show False by simp
qed

text \<open>
  Claim C1, as stated: after an answer submission that completes successfully, the
  consumed context is removed from the store and the same user can no longer retrieve
  it. The handler never deletes from \<open>follow_up_contexts\<close>: after a successful
  refinement the scan still finds Alice's context.
\<close>

theorem context_survives_refinement_counterexample:
  "find_context (follow_up_contexts alice_waiting) ''alice'' = Some alice_context \<and>
   fst (submit_answers (replying three_cases) alice_waiting
          (map_of [(''0'', ''Clinician and Patient roles'')]) ''alice'') =
     Inr (JObj [(''testCases'',
            JArr [JObj [(''testCaseId'', JStr ''TC-001'')], JObj [(''testCaseId'', JStr ''TC-002'')],
                  JObj [(''testCaseId'', JStr ''TC-003'')]])]) \<and>
   find_context
     (follow_up_contexts
        (snd (submit_answers (replying three_cases) alice_waiting
                (map_of [(''0'', ''Clinician and Patient roles'')]) ''alice''))) ''alice'' =
     Some alice_context"
  by code_simp

text \<open>
  Claim C1, amended: an answer submission leaves the store of contexts as it was,
  whatever its outcome; after a submission that completes successfully the consumed
  context is still stored, and it is still the context that a scan for the same user
  retrieves.
\<close>

theorem submit_answers_keeps_context:
  "follow_up_contexts (snd (submit_answers rt st answers u)) = follow_up_contexts st \<and>
   (fst (submit_answers rt st answers u) = Inr resp \<longrightarrow>
      find_context (follow_up_contexts (snd (submit_answers rt st answers u))) u =
        find_context (follow_up_contexts st) u \<and>
      find_context (follow_up_contexts (snd (submit_answers rt st answers u))) u \<noteq> None)"
  using submit_answers_contexts [of rt st answers u] submit_answers_success_found [of rt st answers u resp]
  by simp

theorem submit_answers_keeps_context_witness:
  "fst (submit_answers (replying three_cases) alice_waiting
          (map_of [(''0'', ''Clinician and Patient roles'')]) ''alice'') =
     Inr (JObj [(''testCases'',
            JArr [JObj [(''testCaseId'', JStr ''TC-001'')], JObj [(''testCaseId'', JStr ''TC-002'')],
                  JObj [(''testCaseId'', JStr ''TC-003'')]])]) \<and>
   find_context
     (follow_up_contexts
        (snd (submit_answers (replying three_cases) alice_waiting
                (map_of [(''0'', ''Clinician and Patient roles'')]) ''alice''))) ''alice'' \<noteq> None"
proof -
  have a: "fst (submit_answers (replying three_cases) alice_waiting
          (map_of [(''0'', ''Clinician and Patient roles'')]) ''alice'') =
     Inr (JObj [(''testCases'',
            JArr [JObj [(''testCaseId'', JStr ''TC-001'')], JObj [(''testCaseId'', JStr ''TC-002'')],
                  JObj [(''testCaseId'', JStr ''TC-003'')]])])"
    by code_simp
  have b: "find_context
     (follow_up_contexts
        (snd (submit_answers (replying three_cases) alice_waiting
                (map_of [(''0'', ''Clinician and Patient roles'')]) ''alice''))) ''alice'' \<noteq> None"
    by (rule submit_answers_keeps_context [THEN conjunct2, THEN mp, OF a, THEN conjunct2])
  show ?thesis by (intro conjI a b)
qed

text \<open>
  Claim C5. An answer submission that finds no stored context of the requesting user
  should fail with a not-found condition, status 404. The handler raises that
  \<open>HTTPException\<close> inside its own \<^verbatim>\<open>try\<close> block, whose \<^verbatim>\<open>except Exception\<close> catches it:
  what the caller receives is status 500, with the text of the 404 in the detail.
\<close>

theorem missing_context_gives_500:
  "find_context (follow_up_contexts st) u = None \<longrightarrow>
   submit_answers rt st answers u =
     (Inl (HTTPException 500 (''Failed to process answers: '' @
             exn_str rt (HTTPException 404 ''Context not found''))),
      log_activity st ''ERROR'' (''Answer submission error: '' @
             exn_str rt (HTTPException 404 ''Context not found'')))"
  by (simp add: submit_answers_def on_exception_def)

theorem missing_context_gives_500_witness:
  "find_context (follow_up_contexts empty_state) ''alice'' = None \<and>
   fst (submit_answers (replying two_cases) empty_state Map.empty ''alice'') =
     Inl (HTTPException 500 ''Failed to process answers: 404: Context not found'')"
proof -
  have a: "find_context (follow_up_contexts empty_state) ''alice'' = None"
    by (simp add: empty_state_def)
  have e: "''Failed to process answers: '' @
             exn_str (replying two_cases) (HTTPException 404 ''Context not found'') =
           ''Failed to process answers: 404: Context not found''"
    by code_simp
  have "submit_answers (replying two_cases) empty_state Map.empty ''alice'' =
     (Inl (HTTPException 500 (''Failed to process answers: '' @
             exn_str (replying two_cases) (HTTPException 404 ''Context not found''))),
      log_activity empty_state ''ERROR'' (''Answer submission error: '' @
             exn_str (replying two_cases) (HTTPException 404 ''Context not found'')))"
    by (rule missing_context_gives_500 [THEN mp, OF a])
  then have b: "fst (submit_answers (replying two_cases) empty_state Map.empty ''alice'') =
     Inl (HTTPException 500 ''Failed to process answers: 404: Context not found'')"
    by (simp only: fst_conv e)
  show ?thesis by (intro conjI a b)
qed

lemma deliver_result_one_variant:
  "fst (deliver_result st result txt cid u origin) = Inr resp \<Longrightarrow> one_variant resp"
  by (auto simp: deliver_result_def one_variant_def carries_def split: sum.splits if_splits)

text \<open>
  Claim C6. Every response a generation or refinement request returns to its caller
  carries exactly one of the two variants, for every model output: a response of
  \<open>upload_file\<close> or \<open>fetch_jira_story\<close> carries either \<^verbatim>\<open>followUpQuestions\<close> or
  \<^verbatim>\<open>testCases\<close> and never both, and a response of \<open>submit_answers\<close> carries
  \<^verbatim>\<open>testCases\<close> and no \<^verbatim>\<open>followUpQuestions\<close>.
\<close>

theorem handlers_return_one_variant:
  "(fst (upload_file rt st filename extracted cid u) = Inr resp \<longrightarrow> one_variant resp) \<and>
   (fst (fetch_jira_story rt requests_get st base story cid u) = Inr resp \<longrightarrow> one_variant resp) \<and>
   (fst (submit_answers rt st answers u) = Inr resp \<longrightarrow>
      carries resp ''testCases'' \<and> \<not> carries resp ''followUpQuestions'')"
proof (intro conjI impI)
  assume "fst (upload_file rt st filename extracted cid u) = Inr resp"
  then show "one_variant resp"
    unfolding upload_file_def on_exception_Inr
    by (auto simp: Let_def dest: deliver_result_one_variant split: if_splits sum.splits)
next
  assume "fst (fetch_jira_story rt requests_get st base story cid u) = Inr resp"
  then show "one_variant resp"
    unfolding fetch_jira_story_def on_exception_Inr
    by (auto simp: Let_def dest: deliver_result_one_variant split: if_splits sum.splits)
next
  assume h: "fst (submit_answers rt st answers u) = Inr resp"
  then have "\<exists>tcs. resp = JObj [(''testCases'', tcs)]"
    unfolding submit_answers_def on_exception_Inr
    by (auto simp: Let_def split: option.splits sum.splits)
  then show "carries resp ''testCases''" by (auto simp: carries_def)
  from \<open>\<exists>tcs. resp = JObj [(''testCases'', tcs)]\<close>
  show "\<not> carries resp ''followUpQuestions''" by (auto simp: carries_def)
qed

theorem handlers_return_one_variant_witness:
  "one_variant (JObj [(''followUpQuestions'', JArr (map JStr (propose_followups ''story''))),
                      (''contextId'', JStr ''ctx-9'')]) \<and>
   one_variant (JObj [(''testCases'',
            JArr [JObj [(''testCaseId'', JStr ''TC-001'')], JObj [(''testCaseId'', JStr ''TC-002'')],
                  JObj [(''testCaseId'', JStr ''TC-003'')]])])"
proof -
  have a: "fst (upload_file (replying two_cases) empty_state ''a.pdf'' (Inr ''story'') ''ctx-9'' ''alice'') =
      Inr (JObj [(''followUpQuestions'', JArr (map JStr (propose_followups ''story''))),
                 (''contextId'', JStr ''ctx-9'')])"
    by code_simp
  have b: "fst (upload_file (replying three_cases) empty_state ''a.pdf'' (Inr ''story'') ''ctx-9'' ''alice'') =
      Inr (JObj [(''testCases'',
            JArr [JObj [(''testCaseId'', JStr ''TC-001'')], JObj [(''testCaseId'', JStr ''TC-002'')],
                  JObj [(''testCaseId'', JStr ''TC-003'')]])])"
    by code_simp
  have 1: "one_variant (JObj [(''followUpQuestions'', JArr (map JStr (propose_followups ''story''))),
                      (''contextId'', JStr ''ctx-9'')])"
    by (rule handlers_return_one_variant [THEN conjunct1, THEN mp, OF a])
  have 2: "one_variant (JObj [(''testCases'',
            JArr [JObj [(''testCaseId'', JStr ''TC-001'')], JObj [(''testCaseId'', JStr ''TC-002'')],
                  JObj [(''testCaseId'', JStr ''TC-003'')]])])"
    by (rule handlers_return_one_variant [THEN conjunct1, THEN mp, OF b])
  show ?thesis by (intro conjI 1 2)
qed

section \<open>The clarification decision\<close>





lemma own_questions_fixed [simp]: "own_questions (fixed_questions src)"
  by (simp add: own_questions_def fixed_questions_def propose_followups_def)



lemma admin_settings_log [simp]:
  "admin_settings (log_activity st level message) = admin_settings st"
  by (simp add: log_activity_def)





end
